theory Spec2Isabelle
  imports Main
begin

section \<open>Strings and character classes\<close>

text \<open>
  A string of the program is a sequence of code units. The model works with the code
  units U+0000 to U+00FF, one \<^typ>\<open>char\<close> each, read by \<open>code\<close>. The character
  classes below are the ones the program's string methods and regular expressions use,
  cut down to that range:
  \<^item> \<open>isWhiteSpace\<close>: what \<^verbatim>\<open>trim()\<close> removes and \<^verbatim>\<open>\s\<close> matches (TAB, LF,
    VT, FF, CR, SP, NBSP);
  \<^item> \<open>isLineTerminator\<close>: what \<^verbatim>\<open>.\<close> does not match (LF, CR);
  \<^item> \<open>isDigit\<close>: \<^verbatim>\<open>\d\<close>;
  \<^item> \<open>isAlnum\<close>: \<^verbatim>\<open>[A-Za-z0-9]\<close>, also under the flag \<^verbatim>\<open>i\<close>, whose
    canonicalisation never maps a code unit above 127 to one below;
  \<^item> \<open>ciEq\<close>: a pattern character against an input character under the flag \<^verbatim>\<open>i\<close>
    (all pattern characters of the program are ASCII);
  \<^item> \<open>toLowerChar\<close>: \<^verbatim>\<open>toLowerCase()\<close> on one code unit.
\<close>

definition code :: "char \<Rightarrow> nat" where
  "code c = of_char c"

definition isWhiteSpace :: "char \<Rightarrow> bool" where
  "isWhiteSpace c = (code c = 9 \<or> code c = 10 \<or> code c = 11 \<or> code c = 12 \<or>
     code c = 13 \<or> code c = 32 \<or> code c = 160)"

definition isLineTerminator :: "char \<Rightarrow> bool" where
  "isLineTerminator c = (code c = 10 \<or> code c = 13)"

definition isDigit :: "char \<Rightarrow> bool" where
  "isDigit c = (48 \<le> code c \<and> code c \<le> 57)"

definition isUpperAscii :: "char \<Rightarrow> bool" where
  "isUpperAscii c = (65 \<le> code c \<and> code c \<le> 90)"

definition isLowerAscii :: "char \<Rightarrow> bool" where
  "isLowerAscii c = (97 \<le> code c \<and> code c \<le> 122)"

definition isAlnum :: "char \<Rightarrow> bool" where
  "isAlnum c = (isUpperAscii c \<or> isLowerAscii c \<or> isDigit c)"

definition toLowerAscii :: "char \<Rightarrow> char" where
  "toLowerAscii c = (if isUpperAscii c then char_of (code c + 32) else c)"

definition ciEq :: "char \<Rightarrow> char \<Rightarrow> bool" where
  "ciEq p c = (toLowerAscii p = toLowerAscii c)"

definition toLowerChar :: "char \<Rightarrow> char" where
  "toLowerChar c =
     (if isUpperAscii c \<or> (192 \<le> code c \<and> code c \<le> 214) \<or> (216 \<le> code c \<and> code c \<le> 222)
      then char_of (code c + 32) else c)"

definition toLowerCase :: "string \<Rightarrow> string" where
  "toLowerCase s = map toLowerChar s"

definition trim :: "string \<Rightarrow> string" where
  "trim s = rev (dropWhile isWhiteSpace (rev (dropWhile isWhiteSpace s)))"

section \<open>The regular expressions of normalizeZoteroSelectPath\<close>

text \<open>
  Every pattern is anchored at both ends and has no choice that needs backtracking; each
  is written as a matcher that returns the captured groups, or \<open>None\<close> when the
  pattern does not match.
\<close>

fun lit_ci :: "string \<Rightarrow> string \<Rightarrow> string option" where
  "lit_ci [] s = Some s"
| "lit_ci (p # ps) [] = None"
| "lit_ci (p # ps) (c # cs) = (if ciEq p c then lit_ci ps cs else None)"

definition digits1 :: "string \<Rightarrow> (string \<times> string) option" where
  "digits1 s =
     (let d = takeWhile isDigit s
      in if d = [] then None else Some (d, dropWhile isDigit s))"

definition alnumToEnd :: "string \<Rightarrow> string option" where
  "alnumToEnd s = (if s \<noteq> [] \<and> list_all isAlnum s then Some s else None)"

text \<open>\<^verbatim>\<open>/^zotero:\/\/select\/(.+)$/i\<close>\<close>

definition schemeMatch :: "string \<Rightarrow> string option" where
  "schemeMatch t =
     (case lit_ci ''zotero://select/'' t of
        None \<Rightarrow> None
      | Some r \<Rightarrow> if r \<noteq> [] \<and> list_all (\<lambda>c. \<not> isLineTerminator c) r then Some r else None)"

text \<open>\<^verbatim>\<open>(users|groups)\<close>, with the text it captured.\<close>

definition scopeAlt :: "string \<Rightarrow> (string \<times> string) option" where
  "scopeAlt s =
     (case lit_ci ''users'' s of
        Some r \<Rightarrow> Some (take 5 s, r)
      | None \<Rightarrow>
          (case lit_ci ''groups'' s of
             Some r \<Rightarrow> Some (take 6 s, r)
           | None \<Rightarrow> None))"

text \<open>\<^verbatim>\<open>(\d+)<sep>([A-Za-z0-9]+)$\<close>, the tail that five of the patterns share.\<close>

definition idSepKey :: "string \<Rightarrow> string \<Rightarrow> (string \<times> string) option" where
  "idSepKey sep s =
     (case digits1 s of
        None \<Rightarrow> None
      | Some (d, r) \<Rightarrow>
          (case lit_ci sep r of
             None \<Rightarrow> None
           | Some r' \<Rightarrow>
               (case alnumToEnd r' of
                  None \<Rightarrow> None
                | Some k \<Rightarrow> Some (d, k))))"

text \<open>\<^verbatim>\<open>/^https?:\/\/zotero\.org\/(users|groups)\/(\d+)\/items\/([A-Za-z0-9]+)$/i\<close>\<close>

definition urlMatch :: "string \<Rightarrow> (string \<times> string \<times> string) option" where
  "urlMatch t =
     (case lit_ci ''http'' t of
        None \<Rightarrow> None
      | Some r0 \<Rightarrow>
          (case lit_ci ''://zotero.org/'' (case lit_ci ''s'' r0 of Some r \<Rightarrow> r | None \<Rightarrow> r0) of
             None \<Rightarrow> None
           | Some r1 \<Rightarrow>
               (case scopeAlt r1 of
                  None \<Rightarrow> None
                | Some (scope, r2) \<Rightarrow>
                    (case lit_ci ''/'' r2 of
                       None \<Rightarrow> None
                     | Some r3 \<Rightarrow>
                         (case idSepKey ''/items/'' r3 of
                            None \<Rightarrow> None
                          | Some (d, k) \<Rightarrow> Some (scope, d, k))))))"

text \<open>\<^verbatim>\<open>/^groups\/(\d+)\/items\/([A-Za-z0-9]+)$/i\<close>\<close>

definition groupsMatch :: "string \<Rightarrow> (string \<times> string) option" where
  "groupsMatch t =
     (case lit_ci ''groups/'' t of
        None \<Rightarrow> None
      | Some r \<Rightarrow> idSepKey ''/items/'' r)"

text \<open>\<^verbatim>\<open>/^library\/items\/([A-Za-z0-9]+)$/i\<close>\<close>

definition libraryMatch :: "string \<Rightarrow> string option" where
  "libraryMatch t =
     (case lit_ci ''library/items/'' t of
        None \<Rightarrow> None
      | Some r \<Rightarrow> alnumToEnd r)"

text \<open>\<^verbatim>\<open>/^items\/(\d+)_([A-Za-z0-9]+)$/i\<close>\<close>

definition bareItemsMatch :: "string \<Rightarrow> (string \<times> string) option" where
  "bareItemsMatch t =
     (case lit_ci ''items/'' t of
        None \<Rightarrow> None
      | Some r \<Rightarrow> idSepKey ''_'' r)"

text \<open>\<^verbatim>\<open>/^(\d+)_([A-Za-z0-9]+)$/i\<close>\<close>

definition bareMatch :: "string \<Rightarrow> (string \<times> string) option" where
  "bareMatch t = idSepKey ''_'' t"

text \<open>\<^verbatim>\<open>/^([A-Za-z0-9]+)$/i\<close>\<close>

definition simpleKeyMatch :: "string \<Rightarrow> string option" where
  "simpleKeyMatch t = alnumToEnd t"

section \<open>normalizeZoteroSelectPath\<close>

definition normalizeZoteroSelectPath :: "string \<Rightarrow> string option" where
  "normalizeZoteroSelectPath rawId =
     (if rawId = [] then None
      else
        let trimmed = trim rawId in
        if trimmed = [] then None
        else
          (case schemeMatch trimmed of
             Some rest \<Rightarrow> Some rest
           | None \<Rightarrow>
          (case urlMatch trimmed of
             Some (scope, scopeId, key) \<Rightarrow>
               (if toLowerCase scope = ''groups''
                then Some (''groups/'' @ scopeId @ ''/items/'' @ key)
                else Some (''library/items/'' @ key))
           | None \<Rightarrow>
          (case groupsMatch trimmed of
             Some (gid, key) \<Rightarrow> Some (''groups/'' @ gid @ ''/items/'' @ key)
           | None \<Rightarrow>
          (case libraryMatch trimmed of
             Some key \<Rightarrow> Some (''library/items/'' @ key)
           | None \<Rightarrow>
          (case bareItemsMatch trimmed of
             Some (libraryId, key) \<Rightarrow>
               (if libraryId = ''0'' then Some (''library/items/'' @ key)
                else Some (''groups/'' @ libraryId @ ''/items/'' @ key))
           | None \<Rightarrow>
          (case bareMatch trimmed of
             Some (libraryId, key) \<Rightarrow>
               (if libraryId = ''0'' then Some (''library/items/'' @ key)
                else Some (''groups/'' @ libraryId @ ''/items/'' @ key))
           | None \<Rightarrow>
          (case simpleKeyMatch trimmed of
             Some key \<Rightarrow> Some (''library/items/'' @ key)
           | None \<Rightarrow> None))))))))"

section \<open>Values of the language\<close>

text \<open>
  The utilities take values of unknown type (candidate records of the lookup service,
  header values). A value is one of the JSON shapes or \<open>undefined\<close>. An object is
  the list of its own properties in the order \<^verbatim>\<open>Object.entries\<close> enumerates them.

  The program never computes with numbers: it tests them (\<^verbatim>\<open>Number.isFinite\<close>,
  truthiness), prints them (\<^verbatim>\<open>String(n)\<close>, template literals) and reads them from
  strings (\<^verbatim>\<open>Number(s)\<close>). The type of numbers \<open>'n\<close> and these four operations
  of the language are parameters, collected in a \<open>runtime\<close>.
\<close>

datatype 'n jsval =
    JUndefined
  | JNull
  | JBool bool
  | JNum 'n
  | JStr string
  | JArr "'n jsval list"
  | JObj "(string \<times> 'n jsval) list"

record 'n runtime =
  isFiniteNum :: "'n \<Rightarrow> bool"
  isFalsyNum :: "'n \<Rightarrow> bool"
  numToString :: "'n \<Rightarrow> string"
  stringToNum :: "string \<Rightarrow> 'n"

text \<open>Truthiness, as \<^verbatim>\<open>if (v)\<close>, \<^verbatim>\<open>!v\<close> and \<^verbatim>\<open>a || b\<close> test it.\<close>

fun truthy :: "'n runtime \<Rightarrow> 'n jsval \<Rightarrow> bool" where
  "truthy rt JUndefined = False"
| "truthy rt JNull = False"
| "truthy rt (JBool b) = b"
| "truthy rt (JNum n) = (\<not> isFalsyNum rt n)"
| "truthy rt (JStr s) = (s \<noteq> [])"
| "truthy rt (JArr xs) = True"
| "truthy rt (JObj fs) = True"

text \<open>\<^verbatim>\<open>typeof v === 'object'\<close>\<close>

fun typeofObject :: "'n jsval \<Rightarrow> bool" where
  "typeofObject JNull = True"
| "typeofObject (JArr xs) = True"
| "typeofObject (JObj fs) = True"
| "typeofObject v = False"

text \<open>
  \<^verbatim>\<open>record[name]\<close> for the property names the program reads (none is an array index
  or \<^verbatim>\<open>length\<close>): a missing property is \<open>undefined\<close>.
\<close>

fun getProp :: "'n jsval \<Rightarrow> string \<Rightarrow> 'n jsval" where
  "getProp (JObj fs) name = (case map_of fs name of Some v \<Rightarrow> v | None \<Rightarrow> JUndefined)"
| "getProp v name = JUndefined"

text \<open>\<^verbatim>\<open>a || b\<close> and \<^verbatim>\<open>a ?? b\<close>\<close>

definition orElse :: "'n runtime \<Rightarrow> 'n jsval \<Rightarrow> 'n jsval \<Rightarrow> 'n jsval" where
  "orElse rt a b = (if truthy rt a then a else b)"

fun nullish :: "'n jsval \<Rightarrow> 'n jsval \<Rightarrow> 'n jsval" where
  "nullish JUndefined b = b"
| "nullish JNull b = b"
| "nullish a b = a"

section \<open>extractZoteroSelectPath\<close>

fun extractNumericId :: "'n runtime \<Rightarrow> 'n jsval \<Rightarrow> 'n option" where
  "extractNumericId rt (JNum n) = (if isFiniteNum rt n then Some n else None)"
| "extractNumericId rt (JStr s) =
     (let parsed = stringToNum rt s
      in if isFiniteNum rt parsed then Some parsed else None)"
| "extractNumericId rt v = None"

text \<open>The first block of the object branch: a string \<open>id\<close> that normalizes.\<close>

definition directId :: "'n jsval \<Rightarrow> string option" where
  "directId entry =
     (case getProp entry ''id'' of
        JStr idValue \<Rightarrow>
          (case normalizeZoteroSelectPath idValue of
             Some normalized \<Rightarrow> if normalized \<noteq> [] then Some normalized else None
           | None \<Rightarrow> None)
      | _ \<Rightarrow> None)"

definition extractZoteroSelectPath :: "'n runtime \<Rightarrow> 'n jsval \<Rightarrow> string option" where
  "extractZoteroSelectPath rt entry =
     (if \<not> truthy rt entry then None
      else
        (case entry of
           JStr s \<Rightarrow> normalizeZoteroSelectPath s
         | _ \<Rightarrow>
             if typeofObject entry then
               (case directId entry of
                  Some normalized \<Rightarrow> Some normalized
                | None \<Rightarrow>
                    (case orElse rt (getProp entry ''key'') (getProp entry ''itemKey'') of
                       JStr keyValue \<Rightarrow>
                         (case extractNumericId rt
                                 (nullish (getProp entry ''groupID'') (getProp entry ''groupId'')) of
                            Some groupId \<Rightarrow>
                              Some (''groups/'' @ numToString rt groupId @ ''/items/'' @ keyValue)
                          | None \<Rightarrow> Some (''library/items/'' @ keyValue))
                     | _ \<Rightarrow> None))
             else None))"

section \<open>findTitleMatch\<close>

definition extractTitleFromEntry :: "'n runtime \<Rightarrow> 'n jsval \<Rightarrow> string option" where
  "extractTitleFromEntry rt entry =
     (if \<not> truthy rt entry \<or> \<not> typeofObject entry then None
      else
        (case getProp entry ''title'' of
           JStr title \<Rightarrow>
             (let trimmed = trim title
              in if length trimmed > 0 then Some trimmed else None)
         | _ \<Rightarrow> None))"

text \<open>\<^verbatim>\<open>s.startsWith(t)\<close> and \<^verbatim>\<open>s.includes(t)\<close>\<close>

fun startsWith :: "string \<Rightarrow> string \<Rightarrow> bool" where
  "startsWith s [] = True"
| "startsWith [] (t # ts) = False"
| "startsWith (c # cs) (t # ts) = (c = t \<and> startsWith cs ts)"

fun str_includes :: "string \<Rightarrow> string \<Rightarrow> bool" where
  "str_includes [] t = (t = [])"
| "str_includes (c # cs) t = (startsWith (c # cs) t \<or> str_includes cs t)"

fun findTitleMatch_loop :: "'n runtime \<Rightarrow> string list \<Rightarrow> 'n jsval list \<Rightarrow> 'n jsval option" where
  "findTitleMatch_loop rt terms [] = None"
| "findTitleMatch_loop rt terms (entry # rest) =
     (case extractTitleFromEntry rt entry of
        None \<Rightarrow> findTitleMatch_loop rt terms rest
      | Some title \<Rightarrow>
          if title = [] then findTitleMatch_loop rt terms rest
          else if terms = [] then Some entry
          else if list_all (\<lambda>term. str_includes (toLowerCase title) term) terms then Some entry
          else findTitleMatch_loop rt terms rest)"

definition findTitleMatch :: "'n runtime \<Rightarrow> 'n jsval list \<Rightarrow> string list \<Rightarrow> 'n jsval option" where
  "findTitleMatch rt entries terms =
     (if length entries = 0 then None else findTitleMatch_loop rt terms entries)"

section \<open>Citation keys\<close>

definition citekeyFields :: "string list" where
  "citekeyFields =
     [''citekey'', ''cite-key'', ''zotero-key'', ''zotero_key'', ''zoterokey'',
      ''bbt-citekey'', ''bbt_citekey'', ''better-bibtex-citekey'', ''betterbibtexcitekey'']"

definition isCitekeyField :: "string \<Rightarrow> bool" where
  "isCitekeyField key = (key \<in> set citekeyFields)"

definition normalizeCitekey :: "'n runtime \<Rightarrow> 'n jsval \<Rightarrow> string option" where
  "normalizeCitekey rt raw =
     (case (case raw of JNum n \<Rightarrow> JStr (numToString rt n) | v \<Rightarrow> v) of
        JStr s \<Rightarrow>
          (let trimmed = trim s in
           if trimmed = [] then None
           else
             let withoutAt = (if startsWith trimmed ''@'' then tl trimmed else trimmed)
             in if withoutAt = [] then None else Some (toLowerCase withoutAt))
      | _ \<Rightarrow> None)"

text \<open>
  The body shared by both branches of collectNormalizedValues: push the normalized key
  unless it is absent, empty or already in the bucket. The bucket is returned updated.
\<close>

definition pushNormalized :: "'n runtime \<Rightarrow> string list \<Rightarrow> 'n jsval \<Rightarrow> string list" where
  "pushNormalized rt bucket entry =
     (case normalizeCitekey rt entry of
        Some normalized \<Rightarrow>
          if normalized \<noteq> [] \<and> normalized \<notin> set bucket then bucket @ [normalized]
          else bucket
      | None \<Rightarrow> bucket)"

fun pushAll :: "'n runtime \<Rightarrow> string list \<Rightarrow> 'n jsval list \<Rightarrow> string list" where
  "pushAll rt bucket [] = bucket"
| "pushAll rt bucket (entry # rest) = pushAll rt (pushNormalized rt bucket entry) rest"

fun collectNormalizedValues :: "'n runtime \<Rightarrow> 'n jsval \<Rightarrow> string list \<Rightarrow> string list" where
  "collectNormalizedValues rt (JArr entries) bucket = pushAll rt bucket entries"
| "collectNormalizedValues rt rawValue bucket = pushNormalized rt bucket rawValue"

text \<open>
  A header is absent (\<open>null\<close> or \<open>undefined\<close>) or an object, given by its entries.
\<close>

type_synonym 'n frontmatter = "(string \<times> 'n jsval) list option"

fun collect_loop :: "'n runtime \<Rightarrow> string list \<Rightarrow> (string \<times> 'n jsval) list \<Rightarrow> string list" where
  "collect_loop rt keys [] = keys"
| "collect_loop rt keys ((rawKey, rawValue) # rest) =
     (let key = toLowerCase (trim rawKey)
      in if \<not> isCitekeyField key then collect_loop rt keys rest
         else collect_loop rt (collectNormalizedValues rt rawValue keys) rest)"

definition collectNormalizedCitekeys :: "'n runtime \<Rightarrow> 'n frontmatter \<Rightarrow> string list" where
  "collectNormalizedCitekeys rt frontmatter =
     (case frontmatter of
        None \<Rightarrow> []
      | Some entries \<Rightarrow> collect_loop rt [] entries)"

section \<open>Reading a note's citation keys\<close>

text \<open>
  A note as the resolvers see it: its display name, the header the host's metadata index
  holds for it (\<^verbatim>\<open>getFileCache(file)?.frontmatter\<close>, absent when there is none) and
  its raw content (\<open>None\<close> when reading it fails).
\<close>

record 'n tfile =
  basename :: string
  cachedFrontmatter :: "'n frontmatter"
  noteContent :: "string option"








text \<open>Decimal numerals, for the property names of an array.\<close>

definition digitChar :: "nat \<Rightarrow> char" where
  "digitChar d = char_of (48 + d)"

function showNat :: "nat \<Rightarrow> string" where
  "showNat n = (if n < 10 then [digitChar n] else showNat (n div 10) @ [digitChar (n mod 10)])"
  by pat_completeness auto
termination
  by (relation "measure id") auto

declare showNat.simps [simp del]




section \<open>openInZotero\<close>

text \<open>
  The lookup service is a parameter \<open>bbt\<close>: the candidates queryZoteroBBT returns for a
  query (the empty list on any failure). openInZotero returns the queries it sent, in
  order, and what it opened.
\<close>

datatype outcome = OpenedByKey string | OpenedByTitle string | NotFound

text \<open>\<^verbatim>\<open>frontmatter?.[name]\<close>\<close>

definition frontmatterGet :: "'n frontmatter \<Rightarrow> string \<Rightarrow> 'n jsval" where
  "frontmatterGet frontmatter name =
     (case frontmatter of
        None \<Rightarrow> JUndefined
      | Some fs \<Rightarrow> (case map_of fs name of Some v \<Rightarrow> v | None \<Rightarrow> JUndefined))"

definition searchZoteroByBBT ::
  "'n runtime \<Rightarrow> ('n jsval \<Rightarrow> 'n jsval list) \<Rightarrow> 'n jsval \<Rightarrow> string option" where
  "searchZoteroByBBT rt bbt query =
     (case bbt query of
        [] \<Rightarrow> None
      | first # others \<Rightarrow> extractZoteroSelectPath rt first)"

text \<open>
  \<^verbatim>\<open>\p{L}\<close> and \<^verbatim>\<open>\p{N}\<close> on the code units of the model, and
  \<^verbatim>\<open>title.replace(/[^\p{L}\p{N}]+/gu, " ")\<close>.
\<close>

definition isLetter :: "char \<Rightarrow> bool" where
  "isLetter c = (isUpperAscii c \<or> isLowerAscii c \<or> code c = 170 \<or> code c = 181 \<or> code c = 186 \<or>
     (192 \<le> code c \<and> code c \<le> 214) \<or> (216 \<le> code c \<and> code c \<le> 246) \<or> 248 \<le> code c)"

definition isNumber :: "char \<Rightarrow> bool" where
  "isNumber c = (isDigit c \<or> code c = 178 \<or> code c = 179 \<or> code c = 185 \<or>
     (188 \<le> code c \<and> code c \<le> 190))"

fun replaceRuns :: "bool \<Rightarrow> string \<Rightarrow> string" where
  "replaceRuns inRun [] = []"
| "replaceRuns inRun (c # cs) =
     (if isLetter c \<or> isNumber c then c # replaceRuns False cs
      else if inRun then replaceRuns True cs
      else CHR '' '' # replaceRuns True cs)"

definition cleanTitleOf :: "string \<Rightarrow> string" where
  "cleanTitleOf title = replaceRuns False title"

text \<open>\<^verbatim>\<open>s.split(/\s+/)\<close>: the pieces between maximal runs of white space.\<close>

fun splitRuns :: "bool \<Rightarrow> string \<Rightarrow> string \<Rightarrow> string list" where
  "splitRuns inRun cur [] = [rev cur]"
| "splitRuns inRun cur (c # cs) =
     (if isWhiteSpace c
      then (if inRun then splitRuns True cur cs else rev cur # splitRuns True [] cs)
      else splitRuns False (c # cur) cs)"

text \<open>\<^verbatim>\<open>Array.from(new Set(xs))\<close>: the elements in the order of insertion.\<close>

fun setInsertAll :: "string list \<Rightarrow> string list \<Rightarrow> string list" where
  "setInsertAll acc [] = acc"
| "setInsertAll acc (x # xs) = setInsertAll (if x \<in> set acc then acc else acc @ [x]) xs"

fun searchByTitle_loop ::
  "'n runtime \<Rightarrow> ('n jsval \<Rightarrow> 'n jsval list) \<Rightarrow> string list \<Rightarrow> string list \<Rightarrow>
   'n jsval list \<times> string option" where
  "searchByTitle_loop rt bbt normalizedTerms [] = ([], None)"
| "searchByTitle_loop rt bbt normalizedTerms (query # rest) =
     (case findTitleMatch rt (bbt (JStr query)) normalizedTerms of
        Some match \<Rightarrow>
          if truthy rt match then ([JStr query], extractZoteroSelectPath rt match)
          else (let (sent, found) = searchByTitle_loop rt bbt normalizedTerms rest
                in (JStr query # sent, found))
      | None \<Rightarrow>
          (let (sent, found) = searchByTitle_loop rt bbt normalizedTerms rest
           in (JStr query # sent, found)))"

definition searchByTitle ::
  "'n runtime \<Rightarrow> ('n jsval \<Rightarrow> 'n jsval list) \<Rightarrow> string \<Rightarrow> 'n jsval list \<times> string option" where
  "searchByTitle rt bbt cleanTitle =
     (let terms = filter (\<lambda>t. t \<noteq> []) (splitRuns False [] cleanTitle);
          normalizedTerms = map toLowerCase terms;
          queries = filter (\<lambda>q. q \<noteq> []) (setInsertAll [] (cleanTitle # terms))
      in searchByTitle_loop rt bbt normalizedTerms queries)"

definition titleFallback ::
  "'n runtime \<Rightarrow> ('n jsval \<Rightarrow> 'n jsval list) \<Rightarrow> 'n tfile \<Rightarrow> 'n jsval list \<times> outcome" where
  "titleFallback rt bbt file =
     (let cleanTitle = cleanTitleOf (basename file);
          (sent, selectPathByTitle) = searchByTitle rt bbt cleanTitle
      in (sent,
          case selectPathByTitle of
            Some p \<Rightarrow> if p \<noteq> [] then OpenedByTitle p else NotFound
          | None \<Rightarrow> NotFound))"

definition openInZotero ::
  "'n runtime \<Rightarrow> ('n jsval \<Rightarrow> 'n jsval list) \<Rightarrow> 'n tfile \<Rightarrow> 'n jsval list \<times> outcome" where
  "openInZotero rt bbt file =
     (let frontmatter = cachedFrontmatter file;
          citekey = orElse rt (frontmatterGet frontmatter ''citekey'')
                              (frontmatterGet frontmatter ''zotero-key'')
      in if truthy rt citekey then
           (case searchZoteroByBBT rt bbt citekey of
              Some selectPath \<Rightarrow>
                if selectPath \<noteq> [] then ([citekey], OpenedByKey selectPath)
                else (let (sent, result) = titleFallback rt bbt file in (citekey # sent, result))
            | None \<Rightarrow>
                (let (sent, result) = titleFallback rt bbt file in (citekey # sent, result)))
         else titleFallback rt bbt file)"

section \<open>A runtime for the examples\<close>

text \<open>
  The examples need numbers they can print and read. In this runtime a number is an
  integer or NaN; \<open>showInt\<close> prints an integer as \<^verbatim>\<open>String(n)\<close> prints integers
  of magnitude below \<open>10^21\<close>, and \<open>readNum\<close> reads white space as 0 and a signed
  decimal numeral as its value, as \<^verbatim>\<open>Number(s)\<close> does, and anything else as NaN.
  The theorems quantify over every runtime; this one only evaluates concrete inputs.
\<close>

datatype simple_num = SInt int | SNaN

definition showInt :: "int \<Rightarrow> string" where
  "showInt i = (if i < 0 then CHR ''-'' # showNat (nat (- i)) else showNat (nat i))"

definition readNat :: "string \<Rightarrow> nat" where
  "readNat ds = foldl (\<lambda>a c. 10 * a + (code c - 48)) 0 ds"

definition readNum :: "string \<Rightarrow> simple_num" where
  "readNum s =
     (let t = trim s in
      if t = [] then SInt 0
      else if startsWith t ''-'' then
        (if tl t \<noteq> [] \<and> list_all isDigit (tl t) then SInt (- int (readNat (tl t))) else SNaN)
      else if startsWith t ''+'' then
        (if tl t \<noteq> [] \<and> list_all isDigit (tl t) then SInt (int (readNat (tl t))) else SNaN)
      else if list_all isDigit t then SInt (int (readNat t))
      else SNaN)"

definition simpleRuntime :: "simple_num runtime" where
  "simpleRuntime =
     \<lparr> isFiniteNum = (\<lambda>n. n \<noteq> SNaN),
       isFalsyNum = (\<lambda>n. n = SNaN \<or> n = SInt 0),
       numToString = (\<lambda>n. case n of SInt i \<Rightarrow> showInt i | SNaN \<Rightarrow> ''NaN''),
       stringToNum = readNum \<rparr>"

section \<open>The header's citation keys, as the specification words them\<close>

text \<open>
  The specification describes the result of collectNormalizedCitekeys without the
  bucket: every matching field contributes its elements (a scalar counts as a list of
  one), each element is normalized, absent results are dropped, and of the remaining
  keys the first appearance of each is kept. These definitions follow those words; the
  theorems compare them with the loop of the program.
\<close>

definition spec_elements :: "'n jsval \<Rightarrow> 'n jsval list" where
  "spec_elements v = (case v of JArr xs \<Rightarrow> xs | _ \<Rightarrow> [v])"

definition spec_declaredKeys :: "'n runtime \<Rightarrow> (string \<times> 'n jsval) list \<Rightarrow> string list" where
  "spec_declaredKeys rt fs =
     List.map_filter (normalizeCitekey rt)
       (concat (map (\<lambda>(k, v). spec_elements v)
          (filter (\<lambda>(k, v). isCitekeyField (toLowerCase (trim k))) fs)))"

fun firstAppearances :: "'a list \<Rightarrow> 'a list" where
  "firstAppearances [] = []"
| "firstAppearances (x # xs) = x # firstAppearances (filter (\<lambda>y. y \<noteq> x) xs)"

section \<open>White space, case and trimming\<close>

lemma trim_all_white: "list_all isWhiteSpace s \<Longrightarrow> trim s = []"
proof -
  assume "list_all isWhiteSpace s"
  then have h: "dropWhile isWhiteSpace s = []"
    by (simp add: list_all_iff)
  show ?thesis
    by (simp only: trim_def h rev.simps dropWhile.simps)
qed


lemma isAlnum_not_white: "isAlnum c \<Longrightarrow> \<not> isWhiteSpace c"
  by (auto simp: isAlnum_def isDigit_def isUpperAscii_def isLowerAscii_def isWhiteSpace_def)

lemma last_alnum_not_white: "k \<noteq> [] \<Longrightarrow> list_all isAlnum k \<Longrightarrow> \<not> isWhiteSpace (last k)"
  by (simp add: list_all_iff isAlnum_not_white)

lemma trim_fixed:
  assumes "s \<noteq> []" "\<not> isWhiteSpace (hd s)" "\<not> isWhiteSpace (last s)"
  shows "trim s = s"
proof -
  from assms(1,2) have a: "dropWhile isWhiteSpace s = s"
    by (cases s) simp_all
  from assms(1,3) have b: "dropWhile isWhiteSpace (rev s) = rev s"
    by (cases "rev s") (simp_all add: hd_rev [symmetric])
  show ?thesis by (simp add: trim_def a b)
qed

lemma lower_eq_not_digit:
  "toLowerAscii c = a \<Longrightarrow> \<not> isDigit a \<Longrightarrow> \<not> isDigit c"
  by (auto simp: toLowerAscii_def isDigit_def isUpperAscii_def split: if_splits)

lemma lower_eq_not_white:
  "toLowerAscii c = a \<Longrightarrow> \<not> isWhiteSpace a \<Longrightarrow> \<not> isWhiteSpace c"
  by (auto simp: toLowerAscii_def isWhiteSpace_def isUpperAscii_def split: if_splits)

lemma toLowerChar_ascii: "code (toLowerAscii c) < 128 \<Longrightarrow> toLowerChar c = toLowerAscii c"
  by (auto simp: toLowerChar_def toLowerAscii_def isUpperAscii_def)

lemma toLowerCase_ascii:
  "list_all (\<lambda>c. code c < 128) (map toLowerAscii s) \<Longrightarrow> toLowerCase s = map toLowerAscii s"
  by (induction s) (simp_all add: toLowerCase_def toLowerChar_ascii)

section \<open>Absent results of normalizeZoteroSelectPath\<close>

text \<open>
  Claim C8. normalizeZoteroSelectPath is a total function into an optional string: it has
  no failing branch. It returns absent for every input made of white space only (the
  empty string among them) and for every input whose trimmed form none of the seven
  patterns matches; in particular for the empty string, a single space and
  \<^verbatim>\<open>not-a-match\<close>.
\<close>

theorem normalize_absent:
  "(list_all isWhiteSpace x \<longrightarrow> normalizeZoteroSelectPath x = None) \<and>
   (schemeMatch (trim y) = None \<and> urlMatch (trim y) = None \<and> groupsMatch (trim y) = None \<and>
    libraryMatch (trim y) = None \<and> bareItemsMatch (trim y) = None \<and> bareMatch (trim y) = None \<and>
    simpleKeyMatch (trim y) = None \<longrightarrow> normalizeZoteroSelectPath y = None) \<and>
   normalizeZoteroSelectPath '''' = None \<and>
   normalizeZoteroSelectPath '' '' = None \<and>
   normalizeZoteroSelectPath ''not-a-match'' = None"
proof -
  have a: "list_all isWhiteSpace x \<longrightarrow> normalizeZoteroSelectPath x = None"
    by (simp add: normalizeZoteroSelectPath_def trim_all_white)
  have b: "schemeMatch (trim y) = None \<and> urlMatch (trim y) = None \<and> groupsMatch (trim y) = None \<and>
    libraryMatch (trim y) = None \<and> bareItemsMatch (trim y) = None \<and> bareMatch (trim y) = None \<and>
    simpleKeyMatch (trim y) = None \<longrightarrow> normalizeZoteroSelectPath y = None"
    by (simp add: normalizeZoteroSelectPath_def Let_def)
  have c: "normalizeZoteroSelectPath '''' = None" by code_simp
  have d: "normalizeZoteroSelectPath '' '' = None" by code_simp
  have e: "normalizeZoteroSelectPath ''not-a-match'' = None" by code_simp
  from a b c d e show ?thesis by blast
qed

text \<open>An input of TAB, space and LF, and one that no pattern matches.\<close>

theorem normalize_absent_witness:
  "list_all isWhiteSpace [CHR 0x09, CHR '' '', CHR 0x0A] \<and>
   normalizeZoteroSelectPath [CHR 0x09, CHR '' '', CHR 0x0A] = None \<and>
   schemeMatch (trim ''a b'') = None \<and> urlMatch (trim ''a b'') = None \<and>
   groupsMatch (trim ''a b'') = None \<and> libraryMatch (trim ''a b'') = None \<and>
   bareItemsMatch (trim ''a b'') = None \<and> bareMatch (trim ''a b'') = None \<and>
   simpleKeyMatch (trim ''a b'') = None \<and>
   normalizeZoteroSelectPath ''a b'' = None"
proof -
  have w: "list_all isWhiteSpace [CHR 0x09, CHR '' '', CHR 0x0A]" by code_simp
  have m: "schemeMatch (trim ''a b'') = None \<and> urlMatch (trim ''a b'') = None \<and>
   groupsMatch (trim ''a b'') = None \<and> libraryMatch (trim ''a b'') = None \<and>
   bareItemsMatch (trim ''a b'') = None \<and> bareMatch (trim ''a b'') = None \<and>
   simpleKeyMatch (trim ''a b'') = None" by code_simp
  from w m normalize_absent [of "[CHR 0x09, CHR '' '', CHR 0x0A]" "''a b''"]
  show ?thesis by blast
qed

section \<open>What the matchers capture\<close>

text \<open>
  A matcher that succeeds has captured a non-empty run of digits and a non-empty
  alphanumeric key; conversely the shared tail matches every such pair, whatever the
  letter case of the separator.
\<close>

lemmas char_class_defs =
  ciEq_def toLowerAscii_def isUpperAscii_def isLowerAscii_def isDigit_def isAlnum_def
  isWhiteSpace_def isLineTerminator_def code_def

lemma alnumToEnd_Some: "alnumToEnd s = Some k \<Longrightarrow> k = s \<and> k \<noteq> [] \<and> list_all isAlnum k"
  by (auto simp: alnumToEnd_def split: if_splits)

lemma alnumToEnd_ok: "k \<noteq> [] \<Longrightarrow> list_all isAlnum k \<Longrightarrow> alnumToEnd k = Some k"
  by (simp add: alnumToEnd_def)

lemma digits1_Some: "digits1 s = Some (d, r) \<Longrightarrow> d \<noteq> [] \<and> list_all isDigit d \<and> s = d @ r"
  by (auto simp: digits1_def Let_def list_all_iff split: if_splits dest: set_takeWhileD)

lemma digits1_ok:
  "d \<noteq> [] \<Longrightarrow> list_all isDigit d \<Longrightarrow> \<not> isDigit c \<Longrightarrow> digits1 (d @ c # r) = Some (d, c # r)"
  by (simp add: digits1_def Let_def list_all_iff takeWhile_append2 dropWhile_append2)

lemma lit_ci_self: "lit_ci p (p @ s) = Some s"
  by (induction p) (simp_all add: ciEq_def)

lemma lit_ci_fold:
  "map toLowerAscii p = map toLowerAscii q \<Longrightarrow> lit_ci q (p @ s) = Some s"
proof (induction q arbitrary: p)
  case Nil
  then show ?case by simp
next
  case (Cons a q)
  then obtain c p' where p: "p = c # p'" by (cases p) auto
  with Cons show ?case by (simp add: ciEq_def)
qed

lemma idSepKey_Some:
  "idSepKey sep s = Some (d, k) \<Longrightarrow>
     d \<noteq> [] \<and> list_all isDigit d \<and> k \<noteq> [] \<and> list_all isAlnum k"
  by (auto simp: idSepKey_def split: option.splits prod.splits dest: digits1_Some alnumToEnd_Some)

lemma idSepKey_ok:
  assumes "d \<noteq> []" "list_all isDigit d" "k \<noteq> []" "list_all isAlnum k" "\<not> isDigit c"
  shows "idSepKey (c # sep) (d @ (c # sep) @ k) = Some (d, k)"
proof -
  have "digits1 (d @ (c # sep) @ k) = Some (d, (c # sep) @ k)"
    using digits1_ok [OF assms(1,2,5), of "sep @ k"] by simp
  then show ?thesis
    by (simp add: idSepKey_def lit_ci_self alnumToEnd_ok assms del: lit_ci.simps append.simps)
qed

lemma idSepKey_ci_ok:
  assumes "d \<noteq> []" "list_all isDigit d" "k \<noteq> []" "list_all isAlnum k"
    and "map toLowerAscii it = map toLowerAscii sep" and "it = c # it'" and "\<not> isDigit c"
  shows "idSepKey sep (d @ it @ k) = Some (d, k)"
proof -
  have "digits1 (d @ it @ k) = Some (d, it @ k)"
    using digits1_ok [OF assms(1,2,7), of "it' @ k"] assms(6) by simp
  then show ?thesis
    by (simp add: idSepKey_def lit_ci_fold [OF assms(5)] alnumToEnd_ok assms(3,4))
qed

lemma urlMatch_Some:
  "urlMatch t = Some (sc, d, k) \<Longrightarrow>
     d \<noteq> [] \<and> list_all isDigit d \<and> k \<noteq> [] \<and> list_all isAlnum k"
  by (auto simp: urlMatch_def split: option.splits prod.splits dest: idSepKey_Some)

lemma groupsMatch_Some:
  "groupsMatch t = Some (d, k) \<Longrightarrow>
     d \<noteq> [] \<and> list_all isDigit d \<and> k \<noteq> [] \<and> list_all isAlnum k"
  by (auto simp: groupsMatch_def split: option.splits dest: idSepKey_Some)

lemma libraryMatch_Some: "libraryMatch t = Some k \<Longrightarrow> k \<noteq> [] \<and> list_all isAlnum k"
  by (auto simp: libraryMatch_def split: option.splits dest: alnumToEnd_Some)

lemma bareItemsMatch_Some:
  "bareItemsMatch t = Some (d, k) \<Longrightarrow>
     d \<noteq> [] \<and> list_all isDigit d \<and> k \<noteq> [] \<and> list_all isAlnum k"
  by (auto simp: bareItemsMatch_def split: option.splits dest: idSepKey_Some)

lemma bareMatch_Some:
  "bareMatch t = Some (d, k) \<Longrightarrow>
     d \<noteq> [] \<and> list_all isDigit d \<and> k \<noteq> [] \<and> list_all isAlnum k"
  by (auto simp: bareMatch_def dest: idSepKey_Some)

lemma simpleKeyMatch_Some: "simpleKeyMatch t = Some k \<Longrightarrow> k \<noteq> [] \<and> list_all isAlnum k"
  by (auto simp: simpleKeyMatch_def dest: alnumToEnd_Some)

section \<open>Idempotence of normalizeZoteroSelectPath\<close>

text \<open>
  Both output forms, \<^verbatim>\<open>groups/<N>/items/<KEY>\<close> and
  \<^verbatim>\<open>library/items/<KEY>\<close>, are fixed points.
\<close>

lemma normalize_groups_fixed:
  assumes "d \<noteq> []" "list_all isDigit d" "k \<noteq> []" "list_all isAlnum k"
  shows "normalizeZoteroSelectPath (''groups/'' @ d @ ''/items/'' @ k)
           = Some (''groups/'' @ d @ ''/items/'' @ k)"
proof -
  let ?y = "''groups/'' @ d @ ''/items/'' @ k"
  have t: "trim ?y = ?y"
    using assms(3) last_alnum_not_white [OF assms(3,4)]
    by (intro trim_fixed) (simp_all add: isWhiteSpace_def code_def)
  have s: "schemeMatch ?y = None"
    by (simp add: schemeMatch_def char_class_defs)
  have u: "urlMatch ?y = None"
    by (simp add: urlMatch_def char_class_defs)
  have i: "idSepKey ''/items/'' (d @ ''/items/'' @ k) = Some (d, k)"
    using assms by (intro idSepKey_ok) (simp_all add: isDigit_def code_def)
  have l: "lit_ci ''groups/'' ?y = Some (d @ ''/items/'' @ k)"
    by (rule lit_ci_self)
  have g: "groupsMatch ?y = Some (d, k)"
    by (simp only: groupsMatch_def l option.case i)
  have ne: "?y \<noteq> []" by simp
  show ?thesis
    by (simp only: normalizeZoteroSelectPath_def Let_def t s u g ne if_False option.case prod.case)
qed

lemma normalize_library_fixed:
  assumes "k \<noteq> []" "list_all isAlnum k"
  shows "normalizeZoteroSelectPath (''library/items/'' @ k) = Some (''library/items/'' @ k)"
proof -
  let ?y = "''library/items/'' @ k"
  have t: "trim ?y = ?y"
    using assms(1) last_alnum_not_white [OF assms]
    by (intro trim_fixed) (simp_all add: isWhiteSpace_def code_def)
  have s: "schemeMatch ?y = None"
    by (simp add: schemeMatch_def char_class_defs)
  have u: "urlMatch ?y = None"
    by (simp add: urlMatch_def char_class_defs)
  have g: "groupsMatch ?y = None"
    by (simp add: groupsMatch_def char_class_defs)
  have l: "lit_ci ''library/items/'' ?y = Some k"
    by (rule lit_ci_self)
  have m: "libraryMatch ?y = Some k"
    by (simp only: libraryMatch_def l option.case alnumToEnd_ok [OF assms])
  have ne: "?y \<noteq> []" by simp
  show ?thesis
    by (simp only: normalizeZoteroSelectPath_def Let_def t s u g m ne if_False option.case)
qed

text \<open>
  A scheme URI is returned without its prefix, whatever follows it; and since the result
  is shorter than the input, the result of matching the scheme pattern on \<open>y\<close> is never
  \<open>y\<close> itself. The fixed points of normalization are therefore exactly the two output
  forms.
\<close>

lemma lit_ci_Some:
  "lit_ci q s = Some r \<Longrightarrow> \<exists>p. s = p @ r \<and> map toLowerAscii p = map toLowerAscii q"
proof (induction q s rule: lit_ci.induct)
  case (1 s)
  then show ?case by simp
next
  case (2 p ps)
  then show ?case by simp
next
  case (3 p ps c cs)
  from "3.prems" have eq: "ciEq p c" and rest: "lit_ci ps cs = Some r"
    by (auto split: if_splits)
  from "3.IH" [OF eq rest] obtain p' where "cs = p' @ r" "map toLowerAscii p' = map toLowerAscii ps"
    by blast
  with eq have "c # cs = (c # p') @ r \<and> map toLowerAscii (c # p') = map toLowerAscii (p # ps)"
    by (simp add: ciEq_def)
  then show ?case by blast
qed

lemma length_trim: "length (trim s) \<le> length s"
proof -
  have "length (trim s) = length (dropWhile isWhiteSpace (rev (dropWhile isWhiteSpace s)))"
    by (simp add: trim_def)
  also have "\<dots> \<le> length (rev (dropWhile isWhiteSpace s))"
    by (rule length_dropWhile_le)
  also have "\<dots> = length (dropWhile isWhiteSpace s)"
    by simp
  also have "\<dots> \<le> length s"
    by (rule length_dropWhile_le)
  finally show ?thesis .
qed

lemma schemeMatch_Some:
  "schemeMatch t = Some r \<Longrightarrow>
     \<exists>p. t = p @ r \<and> map toLowerAscii p = ''zotero://select/''"
proof -
  assume "schemeMatch t = Some r"
  then have "lit_ci ''zotero://select/'' t = Some r"
    by (auto simp: schemeMatch_def split: option.splits if_splits)
  from lit_ci_Some [OF this] obtain p where
    p: "t = p @ r" "map toLowerAscii p = map toLowerAscii ''zotero://select/''"
    by blast
  have "map toLowerAscii ''zotero://select/'' = ''zotero://select/''"
    by (simp add: toLowerAscii_def isUpperAscii_def code_def)
  with p show ?thesis by auto
qed

lemma normalize_of_scheme:
  assumes "schemeMatch (trim x) = Some r"
  shows "normalizeZoteroSelectPath x = Some r"
proof -
  have "schemeMatch [] = None" by (simp add: schemeMatch_def)
  with assms have t: "trim x \<noteq> []" by auto
  have "trim [] = []" by (simp add: trim_def)
  with t have "x \<noteq> []" by auto
  with t assms show ?thesis
    by (simp add: normalizeZoteroSelectPath_def Let_def)
qed

lemma normalize_output_form:
  assumes "normalizeZoteroSelectPath x = Some y" and "schemeMatch (trim x) = None"
  shows "(\<exists>k. k \<noteq> [] \<and> list_all isAlnum k \<and> y = ''library/items/'' @ k) \<or>
         (\<exists>d k. d \<noteq> [] \<and> list_all isDigit d \<and> k \<noteq> [] \<and> list_all isAlnum k \<and>
            y = ''groups/'' @ d @ ''/items/'' @ k)"
  using assms unfolding normalizeZoteroSelectPath_def Let_def
  by (auto split: if_splits option.splits prod.splits
        dest!: urlMatch_Some groupsMatch_Some libraryMatch_Some bareItemsMatch_Some
          bareMatch_Some simpleKeyMatch_Some)

lemma scheme_result_not_fixed:
  assumes "schemeMatch (trim y) = Some r"
  shows "r \<noteq> y"
proof
  assume "r = y"
  from schemeMatch_Some [OF assms] obtain p where
    p: "trim y = p @ r" "map toLowerAscii p = ''zotero://select/''"
    by (elim exE conjE)
  from p(2) have "length (map toLowerAscii p) = length ''zotero://select/''"
    by (simp only:)
  then have "length p = 16" by simp
  have "length (trim y) = length p + length r"
    by (simp only: p(1) length_append)
  with \<open>length p = 16\<close> \<open>r = y\<close> length_trim [of y] show False
    by arith
qed

lemma normalize_fixed_iff:
  "normalizeZoteroSelectPath y = Some y \<longleftrightarrow>
     (\<exists>k. k \<noteq> [] \<and> list_all isAlnum k \<and> y = ''library/items/'' @ k) \<or>
     (\<exists>d k. d \<noteq> [] \<and> list_all isDigit d \<and> k \<noteq> [] \<and> list_all isAlnum k \<and>
        y = ''groups/'' @ d @ ''/items/'' @ k)"
proof
  assume fx: "normalizeZoteroSelectPath y = Some y"
  show "(\<exists>k. k \<noteq> [] \<and> list_all isAlnum k \<and> y = ''library/items/'' @ k) \<or>
     (\<exists>d k. d \<noteq> [] \<and> list_all isDigit d \<and> k \<noteq> [] \<and> list_all isAlnum k \<and>
        y = ''groups/'' @ d @ ''/items/'' @ k)"
  proof (cases "schemeMatch (trim y)")
    case None
    with fx show ?thesis by (rule normalize_output_form)
  next
    case (Some r)
    from normalize_of_scheme [OF Some] fx have "r = y" by simp
    with scheme_result_not_fixed [OF Some] show ?thesis by simp
  qed
next
  assume "(\<exists>k. k \<noteq> [] \<and> list_all isAlnum k \<and> y = ''library/items/'' @ k) \<or>
     (\<exists>d k. d \<noteq> [] \<and> list_all isDigit d \<and> k \<noteq> [] \<and> list_all isAlnum k \<and>
        y = ''groups/'' @ d @ ''/items/'' @ k)"
  then show "normalizeZoteroSelectPath y = Some y"
    using normalize_groups_fixed normalize_library_fixed by blast
qed

text \<open>
  Claim C1, as amended. Let \<open>x\<close> normalize to \<open>y\<close>. When the trimmed \<open>x\<close> is not
  a scheme URI, \<open>y\<close> normalizes to itself. When it is a scheme URI, made of a prefix
  that is \<^verbatim>\<open>zotero://select/\<close> in some letter case and a rest \<open>r\<close>, then \<open>y\<close> is
  \<open>r\<close> as it stands. In both cases \<open>y\<close> normalizes to itself if and only if it is of
  the form \<^verbatim>\<open>library/items/<KEY>\<close> or \<^verbatim>\<open>groups/<N>/items/<KEY>\<close>, with a
  non-empty alphanumeric key and a non-empty digit string.
\<close>

theorem normalize_idempotent_cases:
  assumes "normalizeZoteroSelectPath x = Some y"
  shows "(schemeMatch (trim x) = None \<longrightarrow> normalizeZoteroSelectPath y = Some y) \<and>
         (schemeMatch (trim x) = Some r \<longrightarrow>
            y = r \<and> (\<exists>p. trim x = p @ r \<and> map toLowerAscii p = ''zotero://select/'')) \<and>
         (normalizeZoteroSelectPath y = Some y \<longleftrightarrow>
            (\<exists>k. k \<noteq> [] \<and> list_all isAlnum k \<and> y = ''library/items/'' @ k) \<or>
            (\<exists>d k. d \<noteq> [] \<and> list_all isDigit d \<and> k \<noteq> [] \<and> list_all isAlnum k \<and>
               y = ''groups/'' @ d @ ''/items/'' @ k))"
proof (intro conjI impI)
  assume "schemeMatch (trim x) = None"
  with assms have "(\<exists>k. k \<noteq> [] \<and> list_all isAlnum k \<and> y = ''library/items/'' @ k) \<or>
         (\<exists>d k. d \<noteq> [] \<and> list_all isDigit d \<and> k \<noteq> [] \<and> list_all isAlnum k \<and>
            y = ''groups/'' @ d @ ''/items/'' @ k)"
    by (rule normalize_output_form)
  then show "normalizeZoteroSelectPath y = Some y"
    by (simp only: normalize_fixed_iff)
next
  assume s: "schemeMatch (trim x) = Some r"
  from normalize_of_scheme [OF s] assms show "y = r" by simp
next
  assume s: "schemeMatch (trim x) = Some r"
  from schemeMatch_Some [OF s]
  show "\<exists>p. trim x = p @ r \<and> map toLowerAscii p = ''zotero://select/''" .
next
  show "normalizeZoteroSelectPath y = Some y \<longleftrightarrow>
            (\<exists>k. k \<noteq> [] \<and> list_all isAlnum k \<and> y = ''library/items/'' @ k) \<or>
            (\<exists>d k. d \<noteq> [] \<and> list_all isDigit d \<and> k \<noteq> [] \<and> list_all isAlnum k \<and>
               y = ''groups/'' @ d @ ''/items/'' @ k)"
    by (rule normalize_fixed_iff)
qed

text \<open>
  An identifier of the shape \<^verbatim>\<open>items/<N>_<KEY>\<close> with white space around it, and
  the scheme URI of the specification, whose rest is of the library form.
\<close>

theorem normalize_idempotent_cases_witness:
  "normalizeZoteroSelectPath '' items/12_AbC '' = Some ''groups/12/items/AbC'' \<and>
   schemeMatch (trim '' items/12_AbC '') = None \<and>
   normalizeZoteroSelectPath ''groups/12/items/AbC'' = Some ''groups/12/items/AbC'' \<and>
   normalizeZoteroSelectPath ''zotero://select/library/items/ABCDE'' = Some ''library/items/ABCDE'' \<and>
   schemeMatch (trim ''zotero://select/library/items/ABCDE'') = Some ''library/items/ABCDE'' \<and>
   normalizeZoteroSelectPath ''library/items/ABCDE'' = Some ''library/items/ABCDE''"
proof -
  have a: "normalizeZoteroSelectPath '' items/12_AbC '' = Some ''groups/12/items/AbC''"
    by code_simp
  have b: "schemeMatch (trim '' items/12_AbC '') = None"
    by code_simp
  from normalize_idempotent_cases [OF a, of "[]", THEN conjunct1] b
  have c: "normalizeZoteroSelectPath ''groups/12/items/AbC'' = Some ''groups/12/items/AbC''"
    by (rule mp)
  have d: "normalizeZoteroSelectPath ''zotero://select/library/items/ABCDE''
      = Some ''library/items/ABCDE''"
    by code_simp
  have e: "schemeMatch (trim ''zotero://select/library/items/ABCDE'') = Some ''library/items/ABCDE''"
    by code_simp
  have k: "''ABCDE'' \<noteq> [] \<and> list_all isAlnum ''ABCDE'' \<and>
      ''library/items/ABCDE'' = ''library/items/'' @ ''ABCDE''"
    by code_simp
  then have ex: "\<exists>k. k \<noteq> [] \<and> list_all isAlnum k \<and> ''library/items/ABCDE'' = ''library/items/'' @ k"
    by (rule exI)
  have f: "normalizeZoteroSelectPath ''library/items/ABCDE'' = Some ''library/items/ABCDE''"
    by (rule iffD2 [OF normalize_idempotent_cases [OF d, of "[]", THEN conjunct2, THEN conjunct2]],
        rule disjI1, rule ex)
  show ?thesis
    using a b c d e f by simp
qed

text \<open>
  For a scheme URI the rest is returned as it stands. Here the rest matches no pattern:
  normalizing the result again gives absent, not the result.
\<close>

theorem normalize_not_idempotent_on_scheme:
  "normalizeZoteroSelectPath ''zotero://select/not-a-match'' = Some ''not-a-match'' \<and>
   normalizeZoteroSelectPath ''not-a-match'' = None \<and>
   Option.bind (normalizeZoteroSelectPath ''zotero://select/not-a-match'') normalizeZoteroSelectPath
     \<noteq> normalizeZoteroSelectPath ''zotero://select/not-a-match''"
proof -
  have a: "normalizeZoteroSelectPath ''zotero://select/not-a-match'' = Some ''not-a-match''"
    by code_simp
  have b: "normalizeZoteroSelectPath ''not-a-match'' = None"
    by code_simp
  from a b show ?thesis by simp
qed

section \<open>Web URLs\<close>

lemma scopeAlt_groups:
  assumes "map toLowerAscii sc = ''groups''"
  shows "scopeAlt (sc @ r) = Some (sc, r)"
proof -
  from assms have "length (map toLowerAscii sc) = length ''groups''"
    by (simp only:)
  then have len: "length sc = 6"
    by simp
  from assms obtain c cs where sc: "sc = c # cs" and c: "toLowerAscii c = CHR ''g''"
    by (cases sc) auto
  have "toLowerAscii CHR ''u'' \<noteq> toLowerAscii c"
    by (simp add: c) (simp add: toLowerAscii_def isUpperAscii_def code_def)
  then have u: "lit_ci ''users'' (sc @ r) = None"
    by (simp add: sc ciEq_def)
  have "map toLowerAscii ''groups'' = ''groups''"
    by (simp add: toLowerAscii_def isUpperAscii_def code_def)
  with assms have g: "lit_ci ''groups'' (sc @ r) = Some r"
    by (intro lit_ci_fold) simp
  show ?thesis
    by (simp only: scopeAlt_def u g option.case) (simp add: len)
qed

lemma scopeAlt_users:
  assumes "map toLowerAscii sc = ''users''"
  shows "scopeAlt (sc @ r) = Some (sc, r)"
proof -
  from assms have "length (map toLowerAscii sc) = length ''users''"
    by (simp only:)
  then have len: "length sc = 5"
    by simp
  have "map toLowerAscii ''users'' = ''users''"
    by (simp add: toLowerAscii_def isUpperAscii_def code_def)
  with assms have g: "lit_ci ''users'' (sc @ r) = Some r"
    by (intro lit_ci_fold) simp
  show ?thesis
    by (simp only: scopeAlt_def g option.case) (simp add: len)
qed

lemma urlMatch_ok:
  assumes p: "map toLowerAscii p = ''http://zotero.org/'' \<or>
              map toLowerAscii p = ''https://zotero.org/''"
    and sc: "\<And>r. scopeAlt (sc @ r) = Some (sc, r)"
    and d: "d \<noteq> []" "list_all isDigit d" and k: "k \<noteq> []" "list_all isAlnum k"
    and it: "map toLowerAscii it = ''/items/''"
  shows "urlMatch (p @ sc @ ''/'' @ d @ it @ k) = Some (sc, d, k)"
proof -
  let ?R = "sc @ ''/'' @ d @ it @ k"
  define p1 where "p1 = take 4 p"
  define p2 where "p2 = drop 4 p"
  have split: "p = p1 @ p2" by (simp add: p1_def p2_def)
  have "map toLowerAscii p1 = take 4 (map toLowerAscii p)"
    by (simp add: p1_def take_map)
  with p have "map toLowerAscii p1 = ''http''" by auto
  moreover have "map toLowerAscii ''http'' = ''http''"
    by (simp add: toLowerAscii_def isUpperAscii_def code_def)
  ultimately have h: "lit_ci ''http'' (p @ ?R) = Some (p2 @ ?R)"
    using lit_ci_fold [of p1 "''http''" "p2 @ ?R"] by (simp add: split)
  have p2: "map toLowerAscii p2 = drop 4 (map toLowerAscii p)"
    by (simp add: p2_def drop_map)
  have lit: "map toLowerAscii ''://zotero.org/'' = ''://zotero.org/''"
    by (simp add: toLowerAscii_def isUpperAscii_def code_def)
  have rest: "lit_ci ''://zotero.org/''
      (case lit_ci ''s'' (p2 @ ?R) of Some r \<Rightarrow> r | None \<Rightarrow> p2 @ ?R) = Some ?R"
  proof -
    from p consider (http) "map toLowerAscii p2 = ''://zotero.org/''"
      | (https) "map toLowerAscii p2 = ''s://zotero.org/''"
      using p2 by auto
    then show ?thesis
    proof cases
      case http
      then obtain c q where q: "p2 = c # q" and c: "toLowerAscii c = CHR '':''"
        by (cases p2) auto
      have "toLowerAscii CHR ''s'' \<noteq> toLowerAscii c"
        by (simp add: c) (simp add: toLowerAscii_def isUpperAscii_def code_def)
      then have "lit_ci ''s'' (p2 @ ?R) = None"
        by (simp add: q ciEq_def)
      moreover have "lit_ci ''://zotero.org/'' (p2 @ ?R) = Some ?R"
        using http lit by (intro lit_ci_fold) simp
      ultimately show ?thesis by (simp only: option.case)
    next
      case https
      then obtain c q where q: "p2 = c # q" and c: "toLowerAscii c = CHR ''s''"
        and q': "map toLowerAscii q = ''://zotero.org/''"
        by (cases p2) auto
      have "toLowerAscii CHR ''s'' = toLowerAscii c"
        by (simp add: c) (simp add: toLowerAscii_def isUpperAscii_def code_def)
      then have "lit_ci ''s'' (p2 @ ?R) = Some (q @ ?R)"
        by (simp add: q ciEq_def)
      moreover have "lit_ci ''://zotero.org/'' (q @ ?R) = Some ?R"
        using q' lit by (intro lit_ci_fold) simp
      ultimately show ?thesis by (simp only: option.case)
    qed
  qed
  have scope: "scopeAlt ?R = Some (sc, ''/'' @ d @ it @ k)"
    by (rule sc)
  have slash: "lit_ci ''/'' (''/'' @ d @ it @ k) = Some (d @ it @ k)"
    by (rule lit_ci_self)
  from it obtain c it' where c: "it = c # it'" "toLowerAscii c = CHR ''/''"
    by (cases it) auto
  have nd: "\<not> isDigit c"
    by (rule lower_eq_not_digit [OF c(2)]) (simp add: isDigit_def code_def)
  have "map toLowerAscii ''/items/'' = ''/items/''"
    by (simp add: toLowerAscii_def isUpperAscii_def code_def)
  with it have "map toLowerAscii it = map toLowerAscii ''/items/''" by simp
  then have tail: "idSepKey ''/items/'' (d @ it @ k) = Some (d, k)"
    using d k c(1) nd by (intro idSepKey_ci_ok)
  show ?thesis
    by (simp only: urlMatch_def h rest scope slash tail option.case prod.case)
qed

lemma normalize_url_of_match:
  assumes p: "map toLowerAscii p = ''http://zotero.org/'' \<or>
              map toLowerAscii p = ''https://zotero.org/''"
    and u: "urlMatch (p @ sc @ ''/'' @ d @ it @ k) = Some (sc, d, k)"
    and k: "k \<noteq> []" "list_all isAlnum k"
  shows "normalizeZoteroSelectPath (p @ sc @ ''/'' @ d @ it @ k) =
           (if toLowerCase sc = ''groups'' then Some (''groups/'' @ d @ ''/items/'' @ k)
            else Some (''library/items/'' @ k))"
proof -
  let ?x = "p @ sc @ ''/'' @ d @ it @ k"
  from p obtain c p' where c: "p = c # p'" "toLowerAscii c = CHR ''h''"
    by (cases p) auto
  have nw: "\<not> isWhiteSpace c"
    by (rule lower_eq_not_white [OF c(2)]) (simp add: isWhiteSpace_def code_def)
  have ne: "?x \<noteq> []" by (simp add: c)
  have t: "trim ?x = ?x"
    using k nw last_alnum_not_white [OF k] by (intro trim_fixed) (simp_all add: c)
  have "toLowerAscii CHR ''z'' \<noteq> toLowerAscii c"
    by (simp add: c) (simp add: toLowerAscii_def isUpperAscii_def code_def)
  then have s: "schemeMatch ?x = None"
    by (simp add: schemeMatch_def c ciEq_def)
  show ?thesis
    by (simp only: normalizeZoteroSelectPath_def Let_def ne t s u if_False option.case prod.case)
qed

text \<open>
  A host holds no \<^verbatim>\<open>/\<close>. The pattern's literal \<^verbatim>\<open>zotero.org/\<close> can then only
  match a host that is \<^verbatim>\<open>zotero.org\<close> in some letter case, and no other pattern
  matches a string that starts with \<^verbatim>\<open>http\<close> and holds a colon.
\<close>

lemma code_toLowerAscii_upper: "isUpperAscii c \<Longrightarrow> code (toLowerAscii c) = code c + 32"
  by (simp add: toLowerAscii_def isUpperAscii_def code_def of_char_of)

lemma lower_is_slash: "toLowerAscii c = CHR ''/'' \<Longrightarrow> c = CHR ''/''"
proof (cases "isUpperAscii c")
  case True
  assume "toLowerAscii c = CHR ''/''"
  then have "code (toLowerAscii c) = 47" by (simp add: code_def)
  with code_toLowerAscii_upper [OF True] True show ?thesis
    by (simp add: isUpperAscii_def)
next
  case False
  assume "toLowerAscii c = CHR ''/''"
  with False show ?thesis by (simp add: toLowerAscii_def)
qed

lemma lit_ci_host:
  assumes "CHR ''/'' \<notin> set h"
    and "list_all (\<lambda>a. toLowerAscii a \<noteq> CHR ''/'') q"
    and "lit_ci (q @ ''/'') (h @ ''/'' @ t) = Some r"
  shows "map toLowerAscii h = map toLowerAscii q"
  using assms
proof (induction q arbitrary: h)
  case Nil
  show ?case
  proof (cases h)
    case Nil
    then show ?thesis by simp
  next
    case (Cons c h')
    with Nil.prems(3) have "toLowerAscii CHR ''/'' = toLowerAscii c"
      by (simp add: ciEq_def split: if_splits)
    moreover have "toLowerAscii CHR ''/'' = CHR ''/''"
      by (simp add: toLowerAscii_def isUpperAscii_def code_def)
    ultimately have "c = CHR ''/''" using lower_is_slash [of c] by simp
    with Cons Nil.prems(1) show ?thesis by simp
  qed
next
  case (Cons a q)
  show ?case
  proof (cases h)
    case Nil
    with Cons.prems(3) have "toLowerAscii a = toLowerAscii CHR ''/''"
      by (simp add: ciEq_def split: if_splits)
    moreover have "toLowerAscii CHR ''/'' = CHR ''/''"
      by (simp add: toLowerAscii_def isUpperAscii_def code_def)
    ultimately show ?thesis using Cons.prems(2) by simp
  next
    case (Cons c h')
    with Cons.prems(3) have eq: "toLowerAscii a = toLowerAscii c"
      and rest: "lit_ci (q @ ''/'') (h' @ ''/'' @ t) = Some r"
      by (simp_all add: ciEq_def split: if_splits)
    from Cons Cons.prems(1) have "CHR ''/'' \<notin> set h'" by simp
    moreover from Cons.prems(2) have "list_all (\<lambda>a. toLowerAscii a \<noteq> CHR ''/'') q" by simp
    ultimately have "map toLowerAscii h' = map toLowerAscii q"
      using rest by (rule Cons.IH)
    with eq Cons show ?thesis by simp
  qed
qed

lemma urlMatch_other_host:
  assumes sch: "map toLowerAscii sch = ''http'' \<or> map toLowerAscii sch = ''https''"
    and h: "CHR ''/'' \<notin> set host" "map toLowerAscii host \<noteq> ''zotero.org''"
  shows "urlMatch (sch @ ''://'' @ host @ ''/'' @ t) = None"
proof -
  let ?R = "''://'' @ host @ ''/'' @ t"
  have low: "map toLowerAscii ''http'' = ''http''" "map toLowerAscii ''zotero.org'' = ''zotero.org''"
    by (simp_all add: toLowerAscii_def isUpperAscii_def code_def)
  have colon: "lit_ci ''s'' ?R = None"
    by (simp add: ciEq_def toLowerAscii_def isUpperAscii_def code_def)
  have inner: "\<exists>r0. lit_ci ''http'' (sch @ ?R) = Some r0 \<and>
      (case lit_ci ''s'' r0 of Some r \<Rightarrow> r | None \<Rightarrow> r0) = ?R"
    using sch
  proof
    assume "map toLowerAscii sch = ''http''"
    with low have "lit_ci ''http'' (sch @ ?R) = Some ?R"
      by (intro lit_ci_fold) simp
    with colon show ?thesis by simp
  next
    assume s: "map toLowerAscii sch = ''https''"
    define p1 where "p1 = take 4 sch"
    define p2 where "p2 = drop 4 sch"
    have split: "sch = p1 @ p2" by (simp add: p1_def p2_def)
    have "map toLowerAscii p1 = take 4 (map toLowerAscii sch)"
      by (simp add: p1_def take_map)
    with s have p1: "map toLowerAscii p1 = ''http''" by simp
    have "map toLowerAscii p2 = drop 4 (map toLowerAscii sch)"
      by (simp add: p2_def drop_map)
    with s have "map toLowerAscii p2 = ''s''" by simp
    then obtain c where c: "p2 = [c]" "toLowerAscii c = CHR ''s''"
      by (cases p2) auto
    from p1 low have "lit_ci ''http'' (p1 @ (p2 @ ?R)) = Some (p2 @ ?R)"
      by (intro lit_ci_fold) simp
    then have a: "lit_ci ''http'' (sch @ ?R) = Some (c # ?R)"
      by (simp add: split c)
    have "toLowerAscii CHR ''s'' = toLowerAscii c"
      by (simp add: c) (simp add: toLowerAscii_def isUpperAscii_def code_def)
    then have "lit_ci ''s'' (c # ?R) = Some ?R"
      by (simp add: ciEq_def)
    with a show ?thesis by simp
  qed
  have host: "lit_ci ''://zotero.org/'' ?R = None"
  proof (cases "lit_ci (''zotero.org'' @ ''/'') (host @ ''/'' @ t)")
    case None
    then show ?thesis
      by (simp add: ciEq_def)
  next
    case (Some r)
    have "list_all (\<lambda>a. toLowerAscii a \<noteq> CHR ''/'') ''zotero.org''"
      by (simp add: toLowerAscii_def isUpperAscii_def code_def)
    from lit_ci_host [OF h(1) this Some] low h(2) show ?thesis by simp
  qed
  from inner obtain r0 where r0: "lit_ci ''http'' (sch @ ?R) = Some r0"
    "(case lit_ci ''s'' r0 of Some r \<Rightarrow> r | None \<Rightarrow> r0) = ?R"
    by (elim exE conjE)
  show ?thesis
    by (simp only: urlMatch_def r0 host option.case)
qed

lemma normalize_other_host:
  assumes sch: "map toLowerAscii sch = ''http'' \<or> map toLowerAscii sch = ''https''"
    and h: "CHR ''/'' \<notin> set host" "map toLowerAscii host \<noteq> ''zotero.org''"
    and k: "k \<noteq> []" "list_all isAlnum k"
  shows "normalizeZoteroSelectPath (sch @ ''://'' @ host @ ''/'' @ m @ k) = None"
proof -
  let ?x = "sch @ ''://'' @ host @ ''/'' @ m @ k"
  from sch obtain c s' where c: "sch = c # s'" "toLowerAscii c = CHR ''h''"
    by (cases sch) auto
  have nw: "\<not> isWhiteSpace c"
    by (rule lower_eq_not_white [OF c(2)]) (simp add: isWhiteSpace_def code_def)
  have nd: "\<not> isDigit c"
    by (rule lower_eq_not_digit [OF c(2)]) (simp add: isDigit_def code_def)
  have ne: "?x \<noteq> []" by (simp add: c)
  have t: "trim ?x = ?x"
    using k nw last_alnum_not_white [OF k] by (intro trim_fixed) (simp_all add: c)
  have mism: "lit_ci (a # q) ?x = None" if "toLowerAscii a \<noteq> CHR ''h''" for a q
    using that by (simp add: c ciEq_def)
  have nh: "toLowerAscii CHR ''z'' \<noteq> CHR ''h''" "toLowerAscii CHR ''g'' \<noteq> CHR ''h''"
    "toLowerAscii CHR ''l'' \<noteq> CHR ''h''" "toLowerAscii CHR ''i'' \<noteq> CHR ''h''"
    by (simp_all add: toLowerAscii_def isUpperAscii_def code_def)
  have s: "schemeMatch ?x = None"
    by (simp only: schemeMatch_def mism [OF nh(1)] option.case)
  have u: "urlMatch ?x = None"
    using urlMatch_other_host [OF sch h, of "m @ k"] by simp
  have g: "groupsMatch ?x = None"
    by (simp only: groupsMatch_def mism [OF nh(2)] option.case)
  have l: "libraryMatch ?x = None"
    by (simp only: libraryMatch_def mism [OF nh(3)] option.case)
  have i: "bareItemsMatch ?x = None"
    by (simp only: bareItemsMatch_def mism [OF nh(4)] option.case)
  have b: "bareMatch ?x = None"
    using nd by (simp add: bareMatch_def idSepKey_def digits1_def c)
  have "\<not> isAlnum CHR '':''"
    by (simp add: isAlnum_def isUpperAscii_def isLowerAscii_def isDigit_def code_def)
  then have "\<not> list_all isAlnum ?x"
    by (simp add: list_all_iff) 
  then have sk: "simpleKeyMatch ?x = None"
    by (simp add: simpleKeyMatch_def alnumToEnd_def)
  show ?thesis
    by (simp only: normalizeZoteroSelectPath_def Let_def ne t s u g l i b sk if_False option.case)
qed

text \<open>
  Claim C5, as amended. Take a non-empty digit string \<open>d\<close>, a non-empty alphanumeric
  key \<open>k\<close> and \<^verbatim>\<open>/items/\<close> in any letter case. For every web URL made of the
  scheme \<^verbatim>\<open>http\<close> or \<^verbatim>\<open>https\<close> and the host \<^verbatim>\<open>zotero.org\<close>, in any
  letter case, normalizeZoteroSelectPath returns \<^verbatim>\<open>groups/d/items/k\<close> when the
  scope is \<^verbatim>\<open>groups\<close> and \<^verbatim>\<open>library/items/k\<close> when it is \<^verbatim>\<open>users\<close>;
  the digits and the key are returned as written. For every other host, that is every
  string without \<^verbatim>\<open>/\<close> that is not \<^verbatim>\<open>zotero.org\<close> in some letter case, the
  URL normalizes to absent, whatever its scope.
\<close>

theorem normalize_web_url_hosts:
  assumes d: "d \<noteq> []" "list_all isDigit d" and k: "k \<noteq> []" "list_all isAlnum k"
    and it: "map toLowerAscii it = ''/items/''"
  shows "((map toLowerAscii p = ''http://zotero.org/'' \<or>
           map toLowerAscii p = ''https://zotero.org/'') \<and> map toLowerAscii sc = ''groups'' \<longrightarrow>
            normalizeZoteroSelectPath (p @ sc @ ''/'' @ d @ it @ k)
              = Some (''groups/'' @ d @ ''/items/'' @ k)) \<and>
         ((map toLowerAscii p = ''http://zotero.org/'' \<or>
           map toLowerAscii p = ''https://zotero.org/'') \<and> map toLowerAscii sc = ''users'' \<longrightarrow>
            normalizeZoteroSelectPath (p @ sc @ ''/'' @ d @ it @ k)
              = Some (''library/items/'' @ k)) \<and>
         ((map toLowerAscii sch = ''http'' \<or> map toLowerAscii sch = ''https'') \<and>
          CHR ''/'' \<notin> set host \<and> map toLowerAscii host \<noteq> ''zotero.org'' \<longrightarrow>
            normalizeZoteroSelectPath (sch @ ''://'' @ host @ ''/'' @ sc @ ''/'' @ d @ it @ k)
              = None)"
proof (intro conjI impI)
  assume a: "(map toLowerAscii p = ''http://zotero.org/'' \<or>
           map toLowerAscii p = ''https://zotero.org/'') \<and> map toLowerAscii sc = ''groups''"
  then have p: "map toLowerAscii p = ''http://zotero.org/'' \<or>
           map toLowerAscii p = ''https://zotero.org/''"
    and sc: "map toLowerAscii sc = ''groups''"
    by (rule conjunct1, rule conjunct2)
  from sc have low: "toLowerCase sc = ''groups''"
    using toLowerCase_ascii [of sc] by (simp add: code_def)
  have "urlMatch (p @ sc @ ''/'' @ d @ it @ k) = Some (sc, d, k)"
    using p scopeAlt_groups [OF sc] d k it by (intro urlMatch_ok)
  from normalize_url_of_match [OF p this k] low
  show "normalizeZoteroSelectPath (p @ sc @ ''/'' @ d @ it @ k)
          = Some (''groups/'' @ d @ ''/items/'' @ k)"
    by simp
next
  assume a: "(map toLowerAscii p = ''http://zotero.org/'' \<or>
           map toLowerAscii p = ''https://zotero.org/'') \<and> map toLowerAscii sc = ''users''"
  then have p: "map toLowerAscii p = ''http://zotero.org/'' \<or>
           map toLowerAscii p = ''https://zotero.org/''"
    and sc: "map toLowerAscii sc = ''users''"
    by (rule conjunct1, rule conjunct2)
  from sc have "length (toLowerCase sc) = length ''users''"
    by (metis length_map toLowerCase_def)
  then have low: "toLowerCase sc \<noteq> ''groups''"
    by auto
  have "urlMatch (p @ sc @ ''/'' @ d @ it @ k) = Some (sc, d, k)"
    using p scopeAlt_users [OF sc] d k it by (intro urlMatch_ok)
  from normalize_url_of_match [OF p this k] low
  show "normalizeZoteroSelectPath (p @ sc @ ''/'' @ d @ it @ k) = Some (''library/items/'' @ k)"
    by simp
next
  assume a: "(map toLowerAscii sch = ''http'' \<or> map toLowerAscii sch = ''https'') \<and>
          CHR ''/'' \<notin> set host \<and> map toLowerAscii host \<noteq> ''zotero.org''"
  then have sch: "map toLowerAscii sch = ''http'' \<or> map toLowerAscii sch = ''https''"
    and h: "CHR ''/'' \<notin> set host" "map toLowerAscii host \<noteq> ''zotero.org''"
    by simp_all
  from normalize_other_host [OF sch h k, of "sc @ ''/'' @ d @ it"]
  show "normalizeZoteroSelectPath (sch @ ''://'' @ host @ ''/'' @ sc @ ''/'' @ d @ it @ k) = None"
    by simp
qed

text \<open>
  The two URLs of the specification, one in another letter case, and one on the host
  \<^verbatim>\<open>www.zotero.org\<close>.
\<close>

theorem normalize_web_url_hosts_witness:
  "normalizeZoteroSelectPath ''https://zotero.org/groups/25/items/XYZ123''
     = Some ''groups/25/items/XYZ123'' \<and>
   normalizeZoteroSelectPath ''https://zotero.org/users/0/items/Z9999''
     = Some ''library/items/Z9999'' \<and>
   normalizeZoteroSelectPath ''HTTP://Zotero.Org/Groups/007/ITEMS/a1''
     = Some ''groups/007/items/a1'' \<and>
   normalizeZoteroSelectPath ''https://www.zotero.org/groups/25/items/XYZ123'' = None"
proof -
  have low: "map toLowerAscii ''https://zotero.org/'' = ''https://zotero.org/''"
    "map toLowerAscii ''HTTP://Zotero.Org/'' = ''http://zotero.org/''"
    "map toLowerAscii ''/items/'' = ''/items/''"
    "map toLowerAscii ''/ITEMS/'' = ''/items/''"
    "map toLowerAscii ''groups'' = ''groups''"
    "map toLowerAscii ''Groups'' = ''groups''"
    "map toLowerAscii ''users'' = ''users''"
    "map toLowerAscii ''https'' = ''https''"
    "map toLowerAscii ''www.zotero.org'' = ''www.zotero.org''"
    by code_simp+
  have cls: "list_all isDigit ''25''" "list_all isAlnum ''XYZ123''"
    "list_all isDigit ''0''" "list_all isAlnum ''Z9999''"
    "list_all isDigit ''007''" "list_all isAlnum ''a1''"
    by code_simp+
  have host: "CHR ''/'' \<notin> set ''www.zotero.org''" "''www.zotero.org'' \<noteq> ''zotero.org''"
    by simp_all
  have a: "normalizeZoteroSelectPath (''https://zotero.org/'' @ ''groups'' @ ''/'' @ ''25'' @ ''/items/'' @ ''XYZ123'')
      = Some (''groups/'' @ ''25'' @ ''/items/'' @ ''XYZ123'')"
    using normalize_web_url_hosts [of "''25''" "''XYZ123''" "''/items/''" "''https://zotero.org/''" "''groups''" "[]" "[]"]
      low cls by simp
  have b: "normalizeZoteroSelectPath (''https://zotero.org/'' @ ''users'' @ ''/'' @ ''0'' @ ''/items/'' @ ''Z9999'')
      = Some (''library/items/'' @ ''Z9999'')"
    using normalize_web_url_hosts [of "''0''" "''Z9999''" "''/items/''" "''https://zotero.org/''" "''users''" "[]" "[]"]
      low cls by simp
  have c: "normalizeZoteroSelectPath (''HTTP://Zotero.Org/'' @ ''Groups'' @ ''/'' @ ''007'' @ ''/ITEMS/'' @ ''a1'')
      = Some (''groups/'' @ ''007'' @ ''/items/'' @ ''a1'')"
    using normalize_web_url_hosts [of "''007''" "''a1''" "''/ITEMS/''" "''HTTP://Zotero.Org/''" "''Groups''" "[]" "[]"]
      low cls by simp
  have e: "normalizeZoteroSelectPath
      (''https'' @ ''://'' @ ''www.zotero.org'' @ ''/'' @ ''groups'' @ ''/'' @ ''25'' @ ''/items/'' @ ''XYZ123'')
      = None"
    using normalize_web_url_hosts [of "''25''" "''XYZ123''" "''/items/''" "[]" "''groups''" "''https''" "''www.zotero.org''"]
      low cls host by simp
  from a b c e show ?thesis by simp
qed

text \<open>
  The claim as it was stated, for any host, fails on \<^verbatim>\<open>www.zotero.org\<close> and on
  \<^verbatim>\<open>example.com\<close>.
\<close>

theorem normalize_web_url_other_host:
  "normalizeZoteroSelectPath ''https://www.zotero.org/groups/25/items/XYZ123'' = None \<and>
   normalizeZoteroSelectPath ''https://example.com/users/0/items/Z9999'' = None"
  by code_simp

section \<open>Group scope in extractZoteroSelectPath\<close>




section \<open>normalizeCitekey\<close>

text \<open>
  Claim C4. normalizeCitekey returns absent for every value that is neither a string nor
  a number; a number is treated as the string the language prints for it; a string of
  white space only, or one that trims to \<^verbatim>\<open>@\<close>, gives absent; any other string
  gives its trimmed form without one leading \<^verbatim>\<open>@\<close>, in lower case. The three
  examples of the specification follow.
\<close>

theorem normalizeCitekey_cases:
  "normalizeCitekey rt JUndefined = None \<and>
   normalizeCitekey rt JNull = None \<and>
   normalizeCitekey rt (JBool b) = None \<and>
   normalizeCitekey rt (JArr xs) = None \<and>
   normalizeCitekey rt (JObj fs) = None \<and>
   normalizeCitekey rt (JNum n) = normalizeCitekey rt (JStr (numToString rt n)) \<and>
   (list_all isWhiteSpace s \<longrightarrow> normalizeCitekey rt (JStr s) = None) \<and>
   (trim s = ''@'' \<longrightarrow> normalizeCitekey rt (JStr s) = None) \<and>
   (trim s = CHR ''@'' # r \<and> r \<noteq> [] \<longrightarrow> normalizeCitekey rt (JStr s) = Some (toLowerCase r)) \<and>
   (trim s \<noteq> [] \<and> hd (trim s) \<noteq> CHR ''@'' \<longrightarrow>
      normalizeCitekey rt (JStr s) = Some (toLowerCase (trim s))) \<and>
   normalizeCitekey rt (JStr ''  @Smith2020 '') = Some ''smith2020'' \<and>
   normalizeCitekey rt (JStr ''@'') = None \<and>
   normalizeCitekey simpleRuntime (JNum (SInt 1234)) = Some ''1234''"
proof -
  have a: "list_all isWhiteSpace s \<longrightarrow> normalizeCitekey rt (JStr s) = None"
    by (simp add: normalizeCitekey_def trim_all_white)
  have b: "trim s = ''@'' \<longrightarrow> normalizeCitekey rt (JStr s) = None"
    by (simp add: normalizeCitekey_def)
  have c: "trim s = CHR ''@'' # r \<and> r \<noteq> [] \<longrightarrow>
      normalizeCitekey rt (JStr s) = Some (toLowerCase r)"
    by (simp add: normalizeCitekey_def)
  have d: "trim s \<noteq> [] \<and> hd (trim s) \<noteq> CHR ''@'' \<longrightarrow>
      normalizeCitekey rt (JStr s) = Some (toLowerCase (trim s))"
    by (cases "trim s") (simp_all add: normalizeCitekey_def)
  have e: "normalizeCitekey rt (JStr ''  @Smith2020 '') = Some ''smith2020''"
    by code_simp
  have f: "normalizeCitekey rt (JStr ''@'') = None"
    by code_simp
  have g: "normalizeCitekey simpleRuntime (JNum (SInt 1234)) = Some ''1234''"
    by code_simp
  have h: "normalizeCitekey rt JUndefined = None \<and>
   normalizeCitekey rt JNull = None \<and>
   normalizeCitekey rt (JBool b) = None \<and>
   normalizeCitekey rt (JArr xs) = None \<and>
   normalizeCitekey rt (JObj fs) = None \<and>
   normalizeCitekey rt (JNum n) = normalizeCitekey rt (JStr (numToString rt n))"
    by (simp add: normalizeCitekey_def)
  from a b c d e f g h show ?thesis by blast
qed

text \<open>One input for each of the four conditions on strings.\<close>

theorem normalizeCitekey_cases_witness:
  "list_all isWhiteSpace [CHR 0x09, CHR '' ''] \<and>
   normalizeCitekey simpleRuntime (JStr [CHR 0x09, CHR '' '']) = None \<and>
   trim '' @ '' = ''@'' \<and> normalizeCitekey simpleRuntime (JStr '' @ '') = None \<and>
   trim ''@Doe2021 '' = CHR ''@'' # ''Doe2021'' \<and>
   normalizeCitekey simpleRuntime (JStr ''@Doe2021 '') = Some ''doe2021'' \<and>
   trim '' DOE2021'' \<noteq> [] \<and> hd (trim '' DOE2021'') \<noteq> CHR ''@'' \<and>
   normalizeCitekey simpleRuntime (JStr '' DOE2021'') = Some ''doe2021''"
proof -
  have w: "list_all isWhiteSpace [CHR 0x09, CHR '' '']" by code_simp
  have t1: "trim '' @ '' = ''@''" by code_simp
  have t2: "trim ''@Doe2021 '' = CHR ''@'' # ''Doe2021''" by code_simp
  have t3: "trim '' DOE2021'' = ''DOE2021''" by code_simp
  have l1: "toLowerCase ''Doe2021'' = ''doe2021''" by code_simp
  have l2: "toLowerCase ''DOE2021'' = ''doe2021''" by code_simp
  from normalizeCitekey_cases [of simpleRuntime _ _ _ _ "[CHR 0x09, CHR '' '']"] w
  have a: "normalizeCitekey simpleRuntime (JStr [CHR 0x09, CHR '' '']) = None" by blast
  from normalizeCitekey_cases [of simpleRuntime _ _ _ _ "'' @ ''"] t1
  have b: "normalizeCitekey simpleRuntime (JStr '' @ '') = None" by blast
  from normalizeCitekey_cases [of simpleRuntime _ _ _ _ "''@Doe2021 ''" "''Doe2021''"] t2 l1
  have c: "normalizeCitekey simpleRuntime (JStr ''@Doe2021 '') = Some ''doe2021''" by simp
  from normalizeCitekey_cases [of simpleRuntime _ _ _ _ "'' DOE2021''"] t3 l2
  have d: "normalizeCitekey simpleRuntime (JStr '' DOE2021'') = Some ''doe2021''" by simp
  from w t1 t2 t3 a b c d show ?thesis by simp
qed

section \<open>findTitleMatch\<close>

text \<open>
  \<open>startsWith\<close> and \<open>str_includes\<close> are the prefix and the substring relation.
\<close>

lemma startsWith_iff: "startsWith s t \<longleftrightarrow> (\<exists>b. s = t @ b)"
  by (induction s t rule: startsWith.induct) auto

lemma str_includes_iff: "str_includes s t \<longleftrightarrow> (\<exists>a b. s = a @ t @ b)"
proof (induction s)
  case Nil
  then show ?case by auto
next
  case (Cons c cs)
  show ?case
  proof
    assume "str_includes (c # cs) t"
    then consider "startsWith (c # cs) t" | "str_includes cs t" by auto
    then show "\<exists>a b. c # cs = a @ t @ b"
    proof cases
      case 1
      then obtain b where "c # cs = t @ b" by (auto simp: startsWith_iff)
      then have "c # cs = [] @ t @ b" by simp
      then show ?thesis by blast
    next
      case 2
      with Cons obtain a b where "cs = a @ t @ b" by blast
      then have "c # cs = (c # a) @ t @ b" by simp
      then show ?thesis by blast
    qed
  next
    assume "\<exists>a b. c # cs = a @ t @ b"
    then obtain a b where ab: "c # cs = a @ t @ b" by blast
    show "str_includes (c # cs) t"
    proof (cases a)
      case Nil
      with ab have "startsWith (c # cs) t" by (auto simp: startsWith_iff)
      then show ?thesis by simp
    next
      case (Cons x a')
      with ab have "cs = a' @ t @ b" by simp
      with Cons.IH have "str_includes cs t" by blast
      then show ?thesis by simp
    qed
  qed
qed

lemma extractTitle_nonempty: "extractTitleFromEntry rt e = Some t \<Longrightarrow> t \<noteq> []"
  by (auto simp: extractTitleFromEntry_def Let_def split: if_splits jsval.splits)

lemma findTitleMatch_loop_find:
  "findTitleMatch_loop rt terms entries =
     List.find (\<lambda>e. \<exists>t. extractTitleFromEntry rt e = Some t \<and>
                  list_all (\<lambda>term. str_includes (toLowerCase t) term) terms) entries"
proof (induction entries)
  case Nil
  then show ?case by simp
next
  case (Cons e es)
  show ?case
  proof (cases "extractTitleFromEntry rt e")
    case None
    with Cons show ?thesis by simp
  next
    case (Some t)
    then have "t \<noteq> []" by (rule extractTitle_nonempty)
    with Some Cons show ?thesis by (cases terms) auto
  qed
qed

text \<open>
  Claim C6. The title of an entry is what extractTitleFromEntry returns: the trimmed
  \<open>title\<close> property of an object, when it is a string and not empty after trimming.
  With no terms findTitleMatch returns the first entry that has a title; with terms, the
  first entry whose lower-cased title contains every term as a substring; and it returns
  absent exactly when no entry qualifies.
\<close>

theorem findTitleMatch_first_match:
  "findTitleMatch rt entries [] =
     List.find (\<lambda>e. \<exists>t. extractTitleFromEntry rt e = Some t) entries \<and>
   findTitleMatch rt entries terms =
     List.find (\<lambda>e. \<exists>t. extractTitleFromEntry rt e = Some t \<and>
        list_all (\<lambda>term. \<exists>a b. toLowerCase t = a @ term @ b) terms) entries \<and>
   (findTitleMatch rt entries terms = None \<longleftrightarrow>
      \<not> (\<exists>e t. e \<in> set entries \<and> extractTitleFromEntry rt e = Some t \<and>
         list_all (\<lambda>term. \<exists>a b. toLowerCase t = a @ term @ b) terms)) \<and>
   extractTitleFromEntry rt (JObj fs) =
     (case map_of fs ''title'' of
        Some (JStr title) \<Rightarrow> if trim title = [] then None else Some (trim title)
      | _ \<Rightarrow> None)"
proof -
  have loop: "findTitleMatch rt entries ts = findTitleMatch_loop rt ts entries" for ts
    by (cases entries) (simp_all add: findTitleMatch_def)
  have a: "findTitleMatch rt entries [] =
     List.find (\<lambda>e. \<exists>t. extractTitleFromEntry rt e = Some t) entries"
    by (simp add: loop findTitleMatch_loop_find)
  have b: "findTitleMatch rt entries terms =
     List.find (\<lambda>e. \<exists>t. extractTitleFromEntry rt e = Some t \<and>
        list_all (\<lambda>term. \<exists>a b. toLowerCase t = a @ term @ b) terms) entries"
    by (simp add: loop findTitleMatch_loop_find str_includes_iff)
  have c: "findTitleMatch rt entries terms = None \<longleftrightarrow>
      \<not> (\<exists>e t. e \<in> set entries \<and> extractTitleFromEntry rt e = Some t \<and>
         list_all (\<lambda>term. \<exists>a b. toLowerCase t = a @ term @ b) terms)"
    unfolding b by (auto simp: find_None_iff)
  have d: "extractTitleFromEntry rt (JObj fs) =
     (case map_of fs ''title'' of
        Some (JStr title) \<Rightarrow> if trim title = [] then None else Some (trim title)
      | _ \<Rightarrow> None)"
    by (simp add: extractTitleFromEntry_def Let_def split: option.splits jsval.splits)
  from a b c d show ?thesis by blast
qed

text \<open>The entries of the specification's examples, and a list in which no entry has a title.\<close>

theorem findTitleMatch_first_match_witness:
  "findTitleMatch simpleRuntime
     [JObj [(''title'', JStr '' First Paper '')],
      JObj [(''title'', JStr ''Second interesting Result'')],
      JObj [(''title'', JStr ''Computation and Biology'')]] []
     = Some (JObj [(''title'', JStr '' First Paper '')]) \<and>
   findTitleMatch simpleRuntime
     [JObj [(''title'', JStr '' First Paper '')],
      JObj [(''title'', JStr ''Second interesting Result'')],
      JObj [(''title'', JStr ''Computation and Biology'')]] [''second'', ''result'']
     = Some (JObj [(''title'', JStr ''Second interesting Result'')]) \<and>
   findTitleMatch simpleRuntime
     [JObj [(''title'', JStr '' First Paper '')],
      JObj [(''title'', JStr ''Second interesting Result'')],
      JObj [(''title'', JStr ''Computation and Biology'')]] [''missing''] = None \<and>
   findTitleMatch simpleRuntime [JObj [(''title'', JStr '''')], JObj []] [''any''] = None \<and>
   findTitleMatch simpleRuntime [JObj [(''title'', JStr '' '')], JStr ''t'', JObj []] [] = None"
proof -
  let ?es = "[JObj [(''title'', JStr '' '')], JStr ''t'', JObj []] :: simple_num jsval list"
  have "\<forall>e \<in> set ?es. extractTitleFromEntry simpleRuntime e = None"
    by code_simp
  then have "\<not> (\<exists>e t. e \<in> set ?es \<and> extractTitleFromEntry simpleRuntime e = Some t \<and>
         list_all (\<lambda>term. \<exists>a b. toLowerCase t = a @ term @ b) [])"
    by auto
  with findTitleMatch_first_match [of simpleRuntime ?es "[]"]
  have e: "findTitleMatch simpleRuntime ?es [] = None" by blast
  have rest: "findTitleMatch simpleRuntime
     [JObj [(''title'', JStr '' First Paper '')],
      JObj [(''title'', JStr ''Second interesting Result'')],
      JObj [(''title'', JStr ''Computation and Biology'')]] []
     = Some (JObj [(''title'', JStr '' First Paper '')]) \<and>
   findTitleMatch simpleRuntime
     [JObj [(''title'', JStr '' First Paper '')],
      JObj [(''title'', JStr ''Second interesting Result'')],
      JObj [(''title'', JStr ''Computation and Biology'')]] [''second'', ''result'']
     = Some (JObj [(''title'', JStr ''Second interesting Result'')]) \<and>
   findTitleMatch simpleRuntime
     [JObj [(''title'', JStr '' First Paper '')],
      JObj [(''title'', JStr ''Second interesting Result'')],
      JObj [(''title'', JStr ''Computation and Biology'')]] [''missing''] = None \<and>
   findTitleMatch simpleRuntime [JObj [(''title'', JStr '''')], JObj []] [''any''] = None"
    by code_simp
  from e rest show ?thesis by blast
qed

section \<open>collectNormalizedCitekeys\<close>

text \<open>
  The bucket of the program grows like a set that keeps insertion order; the loop over
  the header therefore computes the first appearances of the declared keys.
\<close>

lemma set_firstAppearances: "set (firstAppearances xs) = set xs"
  by (induction xs rule: firstAppearances.induct) auto

lemma distinct_firstAppearances: "distinct (firstAppearances xs)"
  by (induction xs rule: firstAppearances.induct) (auto simp: set_firstAppearances)

lemma setInsertAll_spec:
  "setInsertAll acc ys = acc @ firstAppearances (filter (\<lambda>y. y \<notin> set acc) ys)"
proof (induction ys arbitrary: acc)
  case Nil
  then show ?case by simp
next
  case (Cons y ys)
  show ?case
  proof (cases "y \<in> set acc")
    case True
    then show ?thesis by (simp add: Cons.IH)
  next
    case False
    have "filter (\<lambda>z. z \<notin> set (acc @ [y])) ys
            = filter (\<lambda>z. z \<noteq> y) (filter (\<lambda>z. z \<notin> set acc) ys)"
      by (induction ys) auto
    with False show ?thesis by (simp add: Cons.IH)
  qed
qed

lemma setInsertAll_append: "setInsertAll acc (xs @ ys) = setInsertAll (setInsertAll acc xs) ys"
  by (induction xs arbitrary: acc) simp_all

lemma normalizeCitekey_nonempty: "normalizeCitekey rt v = Some c \<Longrightarrow> c \<noteq> []"
  by (auto simp: normalizeCitekey_def Let_def toLowerCase_def split: jsval.splits if_splits)

lemma pushNormalized_spec:
  "pushNormalized rt bucket e = setInsertAll bucket (List.map_filter (normalizeCitekey rt) [e])"
  by (auto simp: pushNormalized_def split: option.splits
        dest: normalizeCitekey_nonempty)

lemma pushAll_spec:
  "pushAll rt bucket es = setInsertAll bucket (List.map_filter (normalizeCitekey rt) es)"
proof (induction es arbitrary: bucket)
  case Nil
  then show ?case by (simp add:)
next
  case (Cons e es)
  have "List.map_filter (normalizeCitekey rt) (e # es)
          = List.map_filter (normalizeCitekey rt) [e] @ List.map_filter (normalizeCitekey rt) es"
    by (simp add: split: option.splits)
  then show ?case
    by (simp add: Cons.IH pushNormalized_spec setInsertAll_append)
qed

lemma collectNormalizedValues_spec:
  "collectNormalizedValues rt v bucket
     = setInsertAll bucket (List.map_filter (normalizeCitekey rt) (spec_elements v))"
  by (cases v) (simp_all add: spec_elements_def pushAll_spec pushNormalized_spec)

lemma map_filter_append:
  "List.map_filter f (xs @ ys) = List.map_filter f xs @ List.map_filter f ys"
  by (simp add: List.map_filter_def)

lemma set_map_filter: "set (List.map_filter f xs) = {y. \<exists>x. x \<in> set xs \<and> f x = Some y}"
  by (induction xs) (auto split: option.splits)

lemma collect_loop_spec:
  "collect_loop rt keys fs = setInsertAll keys (spec_declaredKeys rt fs)"
proof (induction fs arbitrary: keys)
  case Nil
  then show ?case by (simp add: spec_declaredKeys_def)
next
  case (Cons f fs)
  obtain k v where f: "f = (k, v)" by (cases f)
  show ?case
  proof (cases "isCitekeyField (toLowerCase (trim k))")
    case True
    then have "spec_declaredKeys rt (f # fs)
        = List.map_filter (normalizeCitekey rt) (spec_elements v) @ spec_declaredKeys rt fs"
      by (simp add: spec_declaredKeys_def f map_filter_append)
    with True show ?thesis
      by (simp add: f Cons.IH collectNormalizedValues_spec setInsertAll_append)
  next
    case False
    then have "spec_declaredKeys rt (f # fs) = spec_declaredKeys rt fs"
      by (simp add: spec_declaredKeys_def f)
    with False show ?thesis
      by (simp add: f Cons.IH)
  qed
qed

lemma collect_spec:
  "collectNormalizedCitekeys rt (Some fs) = firstAppearances (spec_declaredKeys rt fs)"
  by (simp add: collectNormalizedCitekeys_def collect_loop_spec setInsertAll_spec)

lemma collect_no_empty: "[] \<notin> set (collectNormalizedCitekeys rt fm)"
proof (cases fm)
  case None
  then show ?thesis by (simp add: collectNormalizedCitekeys_def)
next
  case (Some fs)
  have "[] \<notin> set (spec_declaredKeys rt fs)"
    by (auto simp: spec_declaredKeys_def List.map_filter_def dest: normalizeCitekey_nonempty)
  with Some show ?thesis
    by (simp add: collect_spec set_firstAppearances)
qed

text \<open>
  Claim C7. The list collectNormalizedCitekeys returns has no duplicates and no empty
  key; it is the list of first appearances of the normalized elements of all matching
  fields, in the order of the header, with absent results dropped; an absent header
  gives the empty list. The header of the specification's example yields
  \<^verbatim>\<open>alpha2020, bravo2021, charlie2022\<close>.
\<close>

theorem collect_distinct_first_appearance:
  "distinct (collectNormalizedCitekeys rt fm) \<and>
   [] \<notin> set (collectNormalizedCitekeys rt fm) \<and>
   collectNormalizedCitekeys rt None = [] \<and>
   collectNormalizedCitekeys rt (Some fs) = firstAppearances (spec_declaredKeys rt fs) \<and>
   collectNormalizedCitekeys rt
     (Some [(''citekey'', JStr ''@Alpha2020''),
            (''zotero-key'', JArr [JStr ''Bravo2021'', JStr '''']),
            (''Title'', JStr ''Ignored''),
            (''bbt_citekey'', JArr [JStr ''@Alpha2020'', JStr ''@Charlie2022''])])
     = [''alpha2020'', ''bravo2021'', ''charlie2022'']"
proof -
  have a: "distinct (collectNormalizedCitekeys rt fm)"
    by (cases fm) (simp_all add: collectNormalizedCitekeys_def collect_loop_spec
        setInsertAll_spec distinct_firstAppearances)
  have b: "collectNormalizedCitekeys rt None = []"
    by (simp add: collectNormalizedCitekeys_def)
  have c: "collectNormalizedCitekeys rt
     (Some [(''citekey'', JStr ''@Alpha2020''),
            (''zotero-key'', JArr [JStr ''Bravo2021'', JStr '''']),
            (''Title'', JStr ''Ignored''),
            (''bbt_citekey'', JArr [JStr ''@Alpha2020'', JStr ''@Charlie2022''])])
     = [''alpha2020'', ''bravo2021'', ''charlie2022'']"
    by code_simp
  from a b c collect_no_empty collect_spec show ?thesis by blast
qed

text \<open>A header with a repeated key in one field.\<close>

theorem collect_distinct_first_appearance_witness:
  "collectNormalizedCitekeys simpleRuntime
     (Some [(''citekey'', JArr [JStr ''@DupKey'', JStr ''@DupKey'']),
            (''better-bibtex-citekey'', JStr ''@Unique'')])
     = [''dupkey'', ''unique''] \<and>
   firstAppearances (spec_declaredKeys simpleRuntime
     [(''citekey'', JArr [JStr ''@DupKey'', JStr ''@DupKey'']),
      (''better-bibtex-citekey'', JStr ''@Unique'')])
     = [''dupkey'', ''unique''] \<and>
   distinct (collectNormalizedCitekeys simpleRuntime
     (Some [(''citekey'', JArr [JStr ''@DupKey'', JStr ''@DupKey'']),
            (''better-bibtex-citekey'', JStr ''@Unique'')]))"
proof -
  let ?fs = "[(''citekey'', JArr [JStr ''@DupKey'', JStr ''@DupKey'']),
              (''better-bibtex-citekey'', JStr ''@Unique'')] :: (string \<times> simple_num jsval) list"
  have k: "collectNormalizedCitekeys simpleRuntime (Some ?fs) = [''dupkey'', ''unique'']"
    by code_simp
  from collect_distinct_first_appearance [of simpleRuntime "Some ?fs" ?fs]
  have "distinct (collectNormalizedCitekeys simpleRuntime (Some ?fs))"
    and "collectNormalizedCitekeys simpleRuntime (Some ?fs)
           = firstAppearances (spec_declaredKeys simpleRuntime ?fs)"
    by blast+
  with k show ?thesis by simp
qed

text \<open>
  Claim C2, as amended. A header field contributes its values exactly when its name,
  trimmed and lower-cased, is one of the nine aliases as they are listed: a key is in
  the result if and only if some such field has an element that normalizes to it. The
  match is insensitive to letter case and to white space around the name; hyphen and
  underscore are interchangeable only where the list holds both spellings
  (\<^verbatim>\<open>zotero-key\<close> and \<^verbatim>\<open>zotero_key\<close>, \<^verbatim>\<open>bbt-citekey\<close> and \<^verbatim>\<open>bbt_citekey\<close>).
\<close>

theorem collect_matches_exact_aliases:
  "set (collectNormalizedCitekeys rt (Some fs)) =
     {c. \<exists>k v e. (k, v) \<in> set fs \<and>
           toLowerCase (trim k) \<in>
             {''citekey'', ''cite-key'', ''zotero-key'', ''zotero_key'', ''zoterokey'',
              ''bbt-citekey'', ''bbt_citekey'', ''better-bibtex-citekey'', ''betterbibtexcitekey''} \<and>
           e \<in> set (spec_elements v) \<and> normalizeCitekey rt e = Some c}"
proof -
  have "set (spec_declaredKeys rt fs) =
     {c. \<exists>k v e. (k, v) \<in> set fs \<and> isCitekeyField (toLowerCase (trim k)) \<and>
           e \<in> set (spec_elements v) \<and> normalizeCitekey rt e = Some c}"
    by (auto simp: spec_declaredKeys_def set_map_filter)
  then show ?thesis
    by (simp add: collect_spec set_firstAppearances isCitekeyField_def citekeyFields_def)
qed

text \<open>A field name in mixed case with leading white space.\<close>

theorem collect_matches_exact_aliases_witness:
  "''alpha'' \<in> set (collectNormalizedCitekeys simpleRuntime
      (Some [(''  Zotero_Key'', JArr [JStr ''@Alpha'', JNull])]))"
proof -
  have "toLowerCase (trim ''  Zotero_Key'') = ''zotero_key''"
    by code_simp
  moreover have "normalizeCitekey simpleRuntime (JStr ''@Alpha'') = Some ''alpha''"
    by code_simp
  moreover have "JStr ''@Alpha'' \<in> set (spec_elements (JArr [JStr ''@Alpha'', JNull :: simple_num jsval]))"
    by (simp add: spec_elements_def)
  ultimately have "\<exists>k v e. (k, v) \<in> set [(''  Zotero_Key'', JArr [JStr ''@Alpha'', JNull])] \<and>
           toLowerCase (trim k) \<in>
             {''citekey'', ''cite-key'', ''zotero-key'', ''zotero_key'', ''zoterokey'',
              ''bbt-citekey'', ''bbt_citekey'', ''better-bibtex-citekey'', ''betterbibtexcitekey''} \<and>
           e \<in> set (spec_elements v) \<and> normalizeCitekey simpleRuntime e = Some ''alpha''"
    by (intro exI [of _ "''  Zotero_Key''"] exI [of _ "JArr [JStr ''@Alpha'', JNull]"]
          exI [of _ "JStr ''@Alpha''"]) simp
  with collect_matches_exact_aliases
    [of simpleRuntime "[(''  Zotero_Key'', JArr [JStr ''@Alpha'', JNull])]"]
  show ?thesis by blast
qed

text \<open>
  \<^verbatim>\<open>cite_key\<close> and \<^verbatim>\<open>better_bibtex_citekey\<close> are not in the list: a field of
  either name contributes nothing, while the hyphenated spellings do.
\<close>

theorem collect_misses_underscore_variants:
  "collectNormalizedCitekeys simpleRuntime (Some [(''cite_key'', JStr ''doe2021'')]) = [] \<and>
   collectNormalizedCitekeys simpleRuntime (Some [(''cite-key'', JStr ''doe2021'')]) = [''doe2021''] \<and>
   collectNormalizedCitekeys simpleRuntime (Some [(''better_bibtex_citekey'', JStr ''doe2021'')]) = [] \<and>
   collectNormalizedCitekeys simpleRuntime (Some [(''better-bibtex-citekey'', JStr ''doe2021'')])
     = [''doe2021'']"
  by code_simp

section \<open>getNormalizedCitekeys\<close>





















section \<open>The citation key openInZotero reads\<close>

text \<open>
  Claim C3. openInZotero reads the header's \<^verbatim>\<open>citekey\<close>, or else its
  \<^verbatim>\<open>zotero-key\<close>, and no other alias. A note that declares its key as
  \<^verbatim>\<open>bbt_citekey\<close> goes straight to the title search, whatever the lookup service
  would answer: with a service that knows the key \<^verbatim>\<open>doe2021\<close>, only the cleaned
  title and its terms are sent and nothing is found, while the same key under
  \<^verbatim>\<open>zotero-key\<close> is sent first and opens the item.
\<close>

theorem openInZotero_reads_two_aliases_only:
  "openInZotero simpleRuntime bbt
     \<lparr>basename = ''Doe 2021 - Study'',
      cachedFrontmatter = Some [(''bbt_citekey'', JStr ''doe2021'')], noteContent = None\<rparr>
     = titleFallback simpleRuntime bbt
         \<lparr>basename = ''Doe 2021 - Study'',
          cachedFrontmatter = Some [(''bbt_citekey'', JStr ''doe2021'')], noteContent = None\<rparr> \<and>
   openInZotero simpleRuntime
     (\<lambda>q. if q = JStr ''doe2021'' then [JObj [(''key'', JStr ''K1'')]] else [])
     \<lparr>basename = ''Doe 2021 - Study'',
      cachedFrontmatter = Some [(''bbt_citekey'', JStr ''doe2021'')], noteContent = None\<rparr>
     = ([JStr ''Doe 2021 Study'', JStr ''Doe'', JStr ''2021'', JStr ''Study''], NotFound) \<and>
   openInZotero simpleRuntime
     (\<lambda>q. if q = JStr ''doe2021'' then [JObj [(''key'', JStr ''K1'')]] else [])
     \<lparr>basename = ''Doe 2021 - Study'',
      cachedFrontmatter = Some [(''zotero-key'', JStr ''doe2021'')], noteContent = None\<rparr>
     = ([JStr ''doe2021''], OpenedByKey ''library/items/K1'')"
proof -
  have a: "openInZotero simpleRuntime bbt
     \<lparr>basename = ''Doe 2021 - Study'',
      cachedFrontmatter = Some [(''bbt_citekey'', JStr ''doe2021'')], noteContent = None\<rparr>
     = titleFallback simpleRuntime bbt
         \<lparr>basename = ''Doe 2021 - Study'',
          cachedFrontmatter = Some [(''bbt_citekey'', JStr ''doe2021'')], noteContent = None\<rparr>"
    by (simp add: openInZotero_def frontmatterGet_def orElse_def)
  have b: "openInZotero simpleRuntime
     (\<lambda>q. if q = JStr ''doe2021'' then [JObj [(''key'', JStr ''K1'')]] else [])
     \<lparr>basename = ''Doe 2021 - Study'',
      cachedFrontmatter = Some [(''bbt_citekey'', JStr ''doe2021'')], noteContent = None\<rparr>
     = ([JStr ''Doe 2021 Study'', JStr ''Doe'', JStr ''2021'', JStr ''Study''], NotFound)"
    by code_simp
  have c: "openInZotero simpleRuntime
     (\<lambda>q. if q = JStr ''doe2021'' then [JObj [(''key'', JStr ''K1'')]] else [])
     \<lparr>basename = ''Doe 2021 - Study'',
      cachedFrontmatter = Some [(''zotero-key'', JStr ''doe2021'')], noteContent = None\<rparr>
     = ([JStr ''doe2021''], OpenedByKey ''library/items/K1'')"
    by code_simp
  from a b c show ?thesis by blast
qed

end
